theory Spec2Isabelle
  imports Complex_Main "HOL-Library.Char_ord" "HOL-Library.List_Lexorder"
begin

section \<open>Python values\<close>

text \<open>
  A Python \<open>str\<close> is modelled as a \<open>string\<close>: one \<open>char\<close> per character, so the
  model covers the characters with code points below 256 and \<open>length\<close> is Python's
  \<open>len\<close> there. \<open>lower\<close> and \<open>upper\<close> act on the ASCII letters; the other
  characters below 256 never become an ASCII letter under either, which is all the
  functions below look at. The list order on \<open>string\<close> (characters by code point,
  lexicographic) is the order Python's \<open>sorted\<close> uses on \<open>str\<close>.
\<close>

definition is_space :: "char \<Rightarrow> bool" where
  "is_space c =
     (let n = (of_char c :: nat)
      in (9 \<le> n \<and> n \<le> 13) \<or> (28 \<le> n \<and> n \<le> 32) \<or> n = 133 \<or> n = 160)"

definition strip :: "string \<Rightarrow> string" where
  "strip s = rev (dropWhile is_space (rev (dropWhile is_space s)))"

definition lower_char :: "char \<Rightarrow> char" where
  "lower_char c =
     (let n = (of_char c :: nat) in if 65 \<le> n \<and> n \<le> 90 then char_of (n + 32) else c)"

definition upper_char :: "char \<Rightarrow> char" where
  "upper_char c =
     (let n = (of_char c :: nat) in if 97 \<le> n \<and> n \<le> 122 then char_of (n - 32) else c)"

definition lower :: "string \<Rightarrow> string" where
  "lower s = map lower_char s"

definition upper :: "string \<Rightarrow> string" where
  "upper s = map upper_char s"

definition startswith :: "string \<Rightarrow> string \<Rightarrow> bool" where
  "startswith s p = (take (length p) s = p)"

definition endswith :: "string \<Rightarrow> string \<Rightarrow> bool" where
  "endswith s p = (length p \<le> length s \<and> drop (length s - length p) s = p)"

text \<open>\<open>kw in s\<close> on two strings: \<open>kw\<close> occurs in \<open>s\<close> as a contiguous run.\<close>

fun contains :: "string \<Rightarrow> string \<Rightarrow> bool" where
  "contains kw [] = (kw = [])"
| "contains kw (c # cs) = (startswith (c # cs) kw \<or> contains kw cs)"

text \<open>
  The values \<open>json.load\<close> returns. A \<open>dict\<close> keeps its keys in insertion order, so
  it is an association list; a float is its exact rational value, or one of the
  non-finite values that Python's parser also accepts.
\<close>

datatype json =
    JNull
  | JBool bool
  | JInt int
  | JFloat rat
  | JInfinity
  | JNaN
  | JStr string
  | JArr "json list"
  | JObj "(string \<times> json) list"

type_synonym jdict = "(string \<times> json) list"

datatype pyexn =
    TypeError
  | ValueError
  | OverflowError
  | IndexError
  | KeyError
  | AttributeError
  | JSONDecodeError
  | RequestException

text \<open>\<open>d.get(k)\<close>, \<open>d.get(k, default)\<close>, \<open>k in d\<close> and \<open>d[k] = v\<close> on a dict.\<close>

definition dict_get :: "jdict \<Rightarrow> string \<Rightarrow> json" where
  "dict_get d k = (case map_of d k of None \<Rightarrow> JNull | Some v \<Rightarrow> v)"

definition dict_get_default :: "jdict \<Rightarrow> string \<Rightarrow> json \<Rightarrow> json" where
  "dict_get_default d k dflt = (case map_of d k of None \<Rightarrow> dflt | Some v \<Rightarrow> v)"

definition has_key :: "string \<Rightarrow> jdict \<Rightarrow> bool" where
  "has_key k d = (map_of d k \<noteq> None)"

fun dict_set :: "jdict \<Rightarrow> string \<Rightarrow> json \<Rightarrow> jdict" where
  "dict_set [] k v = [(k, v)]"
| "dict_set ((k', v') # d) k v = (if k' = k then (k, v) # d else (k', v') # dict_set d k v)"

text \<open>Truth value of a Python object, as \<open>not cat\<close> and \<open>if y:\<close> test it.\<close>

fun truthy :: "json \<Rightarrow> bool" where
  "truthy JNull = False"
| "truthy (JBool b) = b"
| "truthy (JInt n) = (n \<noteq> 0)"
| "truthy (JFloat q) = (q \<noteq> 0)"
| "truthy JInfinity = True"
| "truthy JNaN = True"
| "truthy (JStr s) = (s \<noteq> [])"
| "truthy (JArr xs) = (xs \<noteq> [])"
| "truthy (JObj d) = (d \<noteq> [])"

fun is_str :: "json \<Rightarrow> bool" where
  "is_str (JStr s) = True"
| "is_str v = False"

text \<open>Iterating over a value, as a comprehension \<open>for c in v\<close> does.\<close>

fun py_iter :: "json \<Rightarrow> pyexn + json list" where
  "py_iter (JArr xs) = Inr xs"
| "py_iter (JStr s) = Inr (map (\<lambda>c. JStr [c]) s)"
| "py_iter (JObj d) = Inr (map (\<lambda>kv. JStr (fst kv)) d)"
| "py_iter v = Inl TypeError"

text \<open>A list comprehension whose body may raise: the first exception ends it.\<close>

fun map_exn :: "('a \<Rightarrow> pyexn + 'b) \<Rightarrow> 'a list \<Rightarrow> pyexn + 'b list" where
  "map_exn f [] = Inr []"
| "map_exn f (x # xs) =
     (case f x of
        Inl e \<Rightarrow> Inl e
      | Inr y \<Rightarrow> (case map_exn f xs of Inl e \<Rightarrow> Inl e | Inr ys \<Rightarrow> Inr (y # ys)))"

subsection \<open>\<open>int(v)\<close>\<close>

text \<open>
  \<open>int\<close> of a string skips surrounding whitespace, then reads an optional sign and
  decimal digits, where single underscores may stand between digits. The whitespace
  \<open>int\<close> skips is not that of \<open>strip\<close>: the ASCII separators 0x1C to 0x1F are
  whitespace for \<open>str.strip\<close> and an error for \<open>int\<close>. A string with more digits
  than the interpreter's limit (4300, leading zeros counted, underscores not) is
  refused with ValueError.
\<close>

definition is_int_space :: "char \<Rightarrow> bool" where
  "is_int_space c =
     (let n = (of_char c :: nat)
      in (9 \<le> n \<and> n \<le> 13) \<or> n = 32 \<or> n = 133 \<or> n = 160)"

definition MAX_STR_DIGITS :: int where
  "MAX_STR_DIGITS = 4300"

definition is_digit :: "char \<Rightarrow> bool" where
  "is_digit c = (let n = (of_char c :: nat) in 48 \<le> n \<and> n \<le> 57)"

definition digit_val :: "char \<Rightarrow> nat" where
  "digit_val c = of_char c - 48"

fun parse_digits :: "nat \<Rightarrow> string \<Rightarrow> nat option" where
  "parse_digits acc [] = Some acc"
| "parse_digits acc (c # cs) =
     (if is_digit c then parse_digits (10 * acc + digit_val c) cs
      else if c = CHR ''_'' then
        (case cs of
           [] \<Rightarrow> None
         | c' # cs' \<Rightarrow> if is_digit c' then parse_digits acc cs else None)
      else None)"

definition parse_nat :: "string \<Rightarrow> nat option" where
  "parse_nat s =
     (case s of
        [] \<Rightarrow> None
      | c # cs \<Rightarrow>
          if is_digit c \<and> int (length (filter is_digit s)) \<le> MAX_STR_DIGITS
          then parse_digits 0 s else None)"

definition parse_int :: "string \<Rightarrow> int option" where
  "parse_int s =
     (case rev (dropWhile is_int_space (rev (dropWhile is_int_space s))) of
        [] \<Rightarrow> None
      | c # cs \<Rightarrow>
          if c = CHR ''-'' then map_option (\<lambda>n. - int n) (parse_nat cs)
          else if c = CHR ''+'' then map_option int (parse_nat cs)
          else map_option int (parse_nat (c # cs)))"

fun py_int :: "json \<Rightarrow> pyexn + int" where
  "py_int JNull = Inl TypeError"
| "py_int (JBool b) = Inr (if b then 1 else 0)"
| "py_int (JInt n) = Inr n"
| "py_int (JFloat q) = Inr (if 0 \<le> q then \<lfloor>q\<rfloor> else \<lceil>q\<rceil>)"
| "py_int JInfinity = Inl OverflowError"
| "py_int JNaN = Inl ValueError"
| "py_int (JStr s) = (case parse_int s of None \<Rightarrow> Inl ValueError | Some n \<Rightarrow> Inr n)"
| "py_int (JArr xs) = Inl TypeError"
| "py_int (JObj d) = Inl TypeError"

section \<open>Taxonomy normalization\<close>

subsection \<open>\<open>normalize_category\<close> (summarize.py and deep\_analysis.py, the same body)\<close>

text \<open>
  \<^verbatim>\<open>
  def normalize_category(cat):
      if not cat or not isinstance(cat, str):
          return "Unknown"
      c = cat.strip()[0].upper()
      if c in "ABCDEF":
          return c
      return "Unknown"
  \<close>
  \<open>cat.strip()[0]\<close> raises IndexError when the stripped string is empty.
\<close>

definition normalize_category :: "json \<Rightarrow> pyexn + string" where
  "normalize_category cat =
     (if \<not> truthy cat \<or> \<not> is_str cat then Inr ''Unknown''
      else case cat of
        JStr s \<Rightarrow>
          (case strip s of
             [] \<Rightarrow> Inl IndexError
           | c0 # rest \<Rightarrow>
               let c = upper [c0]
               in if contains c ''ABCDEF'' then Inr c else Inr ''Unknown'')
      | other \<Rightarrow> Inr ''Unknown'')"

definition category_values :: "string list" where
  "category_values = [''A'', ''B'', ''C'', ''D'', ''E'', ''F'', ''Unknown'']"

subsection \<open>\<open>safe_int\<close> (deep\_analysis.py)\<close>

definition safe_int :: "json \<Rightarrow> int" where
  "safe_int v = (case py_int v of Inl e \<Rightarrow> 0 | Inr n \<Rightarrow> n)"

subsection \<open>\<open>normalize_technique\<close> (deep\_analysis.py)\<close>

text \<open>\<open>any(kw in sl for kw in kws)\<close>.\<close>

definition any_kw :: "string \<Rightarrow> string list \<Rightarrow> bool" where
  "any_kw sl kws = list_ex (\<lambda>kw. contains kw sl) kws"

text \<open>The twelve keyword rules, tried in the order of the source; the first match returns.\<close>

definition normalize_technique :: "string \<Rightarrow> string" where
  "normalize_technique s0 =
     (let s = strip s0; sl = lower s in
      if any_kw sl [''multi-fidelity'', ''multifidelity'', ''multi fidelity'',
                    ''dual fidelity'', ''bi-fidelity'']
        then ''Multi-Fidelity Data Fusion''
      else if any_kw sl [''transfer learn'', ''fine-tun'', ''fine tun'']
        then ''Transfer Learning''
      else if any_kw sl [''physics-inform'', ''physics inform'', ''pinn'',
                         ''physics-guided'', ''physics constrain'']
        then ''Physics-Informed Methods / PINN''
      else if any_kw sl [''surrogate'', ''emulat'', ''metamodel'']
        then ''Surrogate Modeling''
      else if any_kw sl [''data augment'']
        then ''Data Augmentation''
      else if any_kw sl [''virtual sample'', ''synthetic sample'', ''synthetic data'']
        then ''Virtual Sample Generation''
      else if any_kw sl [''active learn'', ''adaptive sampling'', ''adaptive sample'']
        then ''Active Learning / Adaptive Sampling''
      else if any_kw sl [''few-shot'', ''few shot'', ''small sample'', ''small data'',
                         ''low-data'', ''low data'']
        then ''Few-Shot / Small-Data Learning''
      else if any_kw sl [''sparse'', ''compress'', ''compressive'']
        then ''Sparse Methods / Compressed Sensing''
      else if any_kw sl [''gan'', ''generative adversarial'', ''variational autoencod'',
                         ''diffusion model'', ''vae'']
        then ''Generative Models (GAN/VAE/Diffusion)''
      else if any_kw sl [''multi-task'', ''multitask'']
        then ''Multi-Task Learning''
      else if any_kw sl [''uncertainty'', ''bayesian'', ''probabilistic'']
        then ''Uncertainty Quantification / Bayesian Methods''
      else s)"

text \<open>The canonical names the rules return, in rule order.\<close>

definition technique_labels :: "string list" where
  "technique_labels =
     [''Multi-Fidelity Data Fusion'',
      ''Transfer Learning'',
      ''Physics-Informed Methods / PINN'',
      ''Surrogate Modeling'',
      ''Data Augmentation'',
      ''Virtual Sample Generation'',
      ''Active Learning / Adaptive Sampling'',
      ''Few-Shot / Small-Data Learning'',
      ''Sparse Methods / Compressed Sensing'',
      ''Generative Models (GAN/VAE/Diffusion)'',
      ''Multi-Task Learning'',
      ''Uncertainty Quantification / Bayesian Methods'']"

section \<open>The corpus on disk\<close>

text \<open>
  The storage directory holds one folder per item. A folder is what the programs see
  of it: the PDF files \<open>glob\<close> finds there (name and document, in \<open>glob\<close>'s order) and
  the content of its \<open>analysis.json\<close>, if the file exists. A content is the value
  \<open>json.load\<close> returns for it, or unparseable; \<open>json.dump\<close> followed by
  \<open>json.load\<close> is taken to give the value back. A directory entry that is not a
  folder has neither, and so has a name that was never created.
\<close>

datatype file_content = Json json | Unparseable

datatype pdf = Pages "string list" | Unreadable string

record folder_contents =
  pdfs :: "(string \<times> pdf) list"
  analysis_json :: "file_content option"

text \<open>
  The world the programs run in: the directory listing, the folders, and a trace of
  the effects (requests sent to the completion service, the arguments of every
  \<open>time.sleep\<close> in order, and the number of text extractions).
\<close>

record world =
  entries :: "string list"
  fs :: "string \<Rightarrow> folder_contents"
  calls :: nat
  slept :: "rat list"
  extractions :: nat

definition sleep :: "rat \<Rightarrow> world \<Rightarrow> world" where
  "sleep d w = w\<lparr>slept := slept w @ [d]\<rparr>"

definition save_result :: "string \<Rightarrow> jdict \<Rightarrow> world \<Rightarrow> world" where
  "save_result d result w =
     w\<lparr>fs := (fs w)(d := (fs w d)\<lparr>analysis_json := Some (Json (JObj result))\<rparr>)\<rparr>"

section \<open>Aggregation: loading the records\<close>

text \<open>
  Both loaders normalise the secondary categories with the same statement:
  \<^verbatim>\<open>
  if "secondary_categories" in data:
      data["secondary_categories"] = [
          normalize_category(c) for c in data.get("secondary_categories", [])]
  \<close>
\<close>

definition normalize_secondary :: "jdict \<Rightarrow> pyexn + jdict" where
  "normalize_secondary data =
     (if has_key ''secondary_categories'' data then
        (case py_iter (dict_get_default data ''secondary_categories'' (JArr [])) of
           Inl e \<Rightarrow> Inl e
         | Inr cs \<Rightarrow>
             (case map_exn normalize_category cs of
                Inl e \<Rightarrow> Inl e
              | Inr ns \<Rightarrow> Inr (dict_set data ''secondary_categories'' (JArr (map JStr ns)))))
      else Inr data)"

subsection \<open>summarize.py\<close>

text \<open>
  The body of the \<open>try\<close> of \<open>load_all\<close> for one folder. The inner \<open>try\<close> around
  \<open>int(rs)\<close> catches ValueError and TypeError only; anything else raised in the body
  reaches the outer \<open>except Exception\<close>.
\<close>

definition load_record :: "string \<Rightarrow> file_content \<Rightarrow> pyexn + jdict" where
  "load_record d f =
     (case f of
        Unparseable \<Rightarrow> Inl JSONDecodeError
      | Json v \<Rightarrow>
          (case v of
             JObj obj \<Rightarrow>
               (let data = dict_set obj ''_folder'' (JStr d) in
                case normalize_category (dict_get data ''primary_category'') of
                  Inl e \<Rightarrow> Inl e
                | Inr c \<Rightarrow>
                    (case normalize_secondary (dict_set data ''primary_category'' (JStr c)) of
                       Inl e \<Rightarrow> Inl e
                     | Inr data' \<Rightarrow>
                         (let rs = dict_get data' ''relevance_score'' in
                          if rs \<noteq> JNull then
                            (case py_int rs of
                               Inr n \<Rightarrow> Inr (dict_set data' ''relevance_score'' (JInt n))
                             | Inl e \<Rightarrow>
                                 if e = ValueError \<or> e = TypeError
                                 then Inr (dict_set data' ''relevance_score'' (JInt 0))
                                 else Inl e)
                          else Inr data')))
           | other \<Rightarrow> Inl TypeError))"

fun load_loop ::
  "world \<Rightarrow> string list \<Rightarrow> jdict list \<Rightarrow> (string \<times> pyexn) list
     \<Rightarrow> jdict list \<times> (string \<times> pyexn) list" where
  "load_loop w [] results errors = (results, errors)"
| "load_loop w (d # ds) results errors =
     (case analysis_json (fs w d) of
        None \<Rightarrow> load_loop w ds results errors
      | Some f \<Rightarrow>
          (case load_record d f of
             Inr data \<Rightarrow> load_loop w ds (results @ [data]) errors
           | Inl e \<Rightarrow> load_loop w ds results (errors @ [(d, e)])))"

definition load_all :: "world \<Rightarrow> jdict list \<times> (string \<times> pyexn) list" where
  "load_all w = load_loop w (sort (entries w)) [] []"

subsection \<open>deep\_analysis.py\<close>

text \<open>
  Its \<open>load_all\<close> (here \<open>deep_load_all\<close>) coerces score and year with \<open>safe_int\<close> and
  has \<open>except Exception: pass\<close>: it returns the records only.
\<close>

definition deep_load_record :: "string \<Rightarrow> file_content \<Rightarrow> pyexn + jdict" where
  "deep_load_record d f =
     (case f of
        Unparseable \<Rightarrow> Inl JSONDecodeError
      | Json v \<Rightarrow>
          (case v of
             JObj obj \<Rightarrow>
               (let data = dict_set obj ''_folder'' (JStr d) in
                case normalize_category (dict_get data ''primary_category'') of
                  Inl e \<Rightarrow> Inl e
                | Inr c \<Rightarrow>
                    (let data1 = dict_set data ''primary_category'' (JStr c);
                         data2 = dict_set data1 ''relevance_score''
                                   (JInt (safe_int (dict_get data1 ''relevance_score'')));
                         data3 = dict_set data2 ''year'' (JInt (safe_int (dict_get data2 ''year'')))
                     in normalize_secondary data3))
           | other \<Rightarrow> Inl TypeError))"

fun deep_load_loop :: "world \<Rightarrow> string list \<Rightarrow> jdict list \<Rightarrow> jdict list" where
  "deep_load_loop w [] results = results"
| "deep_load_loop w (d # ds) results =
     (case analysis_json (fs w d) of
        None \<Rightarrow> deep_load_loop w ds results
      | Some f \<Rightarrow>
          (case deep_load_record d f of
             Inr data \<Rightarrow> deep_load_loop w ds (results @ [data])
           | Inl e \<Rightarrow> deep_load_loop w ds results))"

definition deep_load_all :: "world \<Rightarrow> jdict list" where
  "deep_load_all w = deep_load_loop w (sort (entries w)) []"

section \<open>Aggregation: the statistics of summarize.py\<close>

text \<open>
  A \<open>Counter\<close> is an association list from keys to counts, in insertion order. Its
  keys here are the values the loaded records hold for category and score: strings,
  integers and \<open>None\<close>, on which Python's key equality is equality of the values.
\<close>

fun counter_add :: "'k \<Rightarrow> ('k \<times> nat) list \<Rightarrow> ('k \<times> nat) list" where
  "counter_add k [] = [(k, 1)]"
| "counter_add k ((k', n) # c) =
     (if k' = k then (k', n + 1) # c else (k', n) # counter_add k c)"

definition counter_get :: "('k \<times> nat) list \<Rightarrow> 'k \<Rightarrow> nat" where
  "counter_get c k = (case map_of c k of None \<Rightarrow> 0 | Some n \<Rightarrow> n)"

text \<open>
  \<^verbatim>\<open>
  primary = Counter()
  for r in results:
      cat = r.get("primary_category", "Unknown")
      primary[cat] = primary.get(cat, 0) + 1
  \<close>
\<close>

definition primary_counts :: "jdict list \<Rightarrow> (json \<times> nat) list" where
  "primary_counts results =
     foldl (\<lambda>primary r.
              counter_add (dict_get_default r ''primary_category'' (JStr ''Unknown'')) primary)
       [] results"

definition relevance_counts :: "jdict list \<Rightarrow> (json \<times> nat) list" where
  "relevance_counts results =
     foldl (\<lambda>rel r. counter_add (dict_get_default r ''relevance_score'' (JStr ''?'')) rel)
       [] results"

text \<open>
  \<^verbatim>\<open>
  cross = defaultdict(Counter)
  for r in results:
      cat = r.get("primary_category", "?")
      score = r.get("relevance_score", "?")
      cross[cat][score] += 1
  ...
  for cat in ["A", "B", "C", "D", "E", "F"]:
      row = cross.get(cat, {})
      total = sum(row.values())
      ... row.get(s, 0) for s in [1, 2, 3, 4, 5] ...
  \<close>
\<close>

fun cross_add ::
  "json \<Rightarrow> json \<Rightarrow> (json \<times> (json \<times> nat) list) list \<Rightarrow> (json \<times> (json \<times> nat) list) list" where
  "cross_add cat score [] = [(cat, [(score, 1)])]"
| "cross_add cat score ((c, row) # rest) =
     (if c = cat then (c, counter_add score row) # rest
      else (c, row) # cross_add cat score rest)"

definition crosstab :: "jdict list \<Rightarrow> (json \<times> (json \<times> nat) list) list" where
  "crosstab results =
     foldl (\<lambda>cross r.
              cross_add (dict_get_default r ''primary_category'' (JStr ''?''))
                        (dict_get_default r ''relevance_score'' (JStr ''?'')) cross)
       [] results"

definition cross_row :: "(json \<times> (json \<times> nat) list) list \<Rightarrow> string \<Rightarrow> (json \<times> nat) list" where
  "cross_row cross cat = (case map_of cross (JStr cat) of None \<Rightarrow> [] | Some row \<Rightarrow> row)"

definition row_total :: "(json \<times> nat) list \<Rightarrow> nat" where
  "row_total row = sum_list (map snd row)"

definition category_order :: "string list" where
  "category_order = [''A'', ''B'', ''C'', ''D'', ''E'', ''F'']"

definition score_columns :: "int list" where
  "score_columns = [1, 2, 3, 4, 5]"

section \<open>The batch orchestrator (analyze.py)\<close>

definition MODEL :: string where
  "MODEL = ''google/gemini-2.5-flash''"

definition OUTPUT_FILENAME :: string where
  "OUTPUT_FILENAME = ''analysis.json''"

definition MAX_TEXT_CHARS :: int where
  "MAX_TEXT_CHARS = 30000"

definition MAX_RETRIES :: nat where
  "MAX_RETRIES = 3"

definition RETRY_DELAY :: rat where
  "RETRY_DELAY = 5"

definition RATE_LIMIT_DELAY :: rat where
  "RATE_LIMIT_DELAY = 1 / 2"

subsection \<open>\<open>extract_text_from_pdf\<close>\<close>

text \<open>
  A document is its pages' texts, or cannot be read: then the function returns a
  message built from the exception's text. The two message literals of analyze.py
  that hold a dash beyond code point 255 are written with \<open>-\<close>. Lengths are
  compared with \<open>MAX_TEXT_CHARS\<close> as Python integers.
  \<^verbatim>\<open>
  for page in doc:
      text += page.get_text()
      if len(text) > MAX_TEXT_CHARS:
          text = text[:MAX_TEXT_CHARS]
          text += "\n\n[Text truncated ... above is the first portion]"
          break
  return text.strip()
  \<close>
\<close>

fun read_pages :: "string \<Rightarrow> string list \<Rightarrow> string" where
  "read_pages acc [] = acc"
| "read_pages acc (p # ps) =
     (let acc' = acc @ p in
      if int (length acc') > MAX_TEXT_CHARS
      then take (nat MAX_TEXT_CHARS) acc' @ [CHR 0x0A, CHR 0x0A]
             @ ''[Text truncated - above is the first portion]''
      else read_pages acc' ps)"

fun extract_text_from_pdf :: "pdf \<Rightarrow> string" where
  "extract_text_from_pdf (Pages ps) = strip (read_pages [] ps)"
| "extract_text_from_pdf (Unreadable msg) = ''[PDF text extraction failed: '' @ msg @ '']''"

subsection \<open>\<open>call_llm\<close>\<close>

text \<open>
  What \<open>requests.post\<close> gives: an exception of \<open>requests\<close>, or a response with its
  status code and its body as \<open>resp.json()\<close> reads it (\<open>None\<close>: the body is not JSON).
  The environment of a run: the credential, the completion service (its answer to
  the n-th request of the run, for the filename and text sent), \<open>json.loads\<close> and the
  clock that \<open>time.strftime\<close> reads.
\<close>

datatype http_result = Request_failed | Response nat "json option"

record env =
  api_key :: string
  service :: "nat \<Rightarrow> string \<Rightarrow> string \<Rightarrow> http_result"
  json_loads :: "string \<Rightarrow> json option"
  strftime :: "nat \<Rightarrow> string"

text \<open>\<open>v[k]\<close> for a string key and \<open>v[0]\<close>.\<close>

fun getitem_key :: "json \<Rightarrow> string \<Rightarrow> pyexn + json" where
  "getitem_key (JObj d) k = (case map_of d k of None \<Rightarrow> Inl KeyError | Some v \<Rightarrow> Inr v)"
| "getitem_key v k = Inl TypeError"

fun getitem_0 :: "json \<Rightarrow> pyexn + json" where
  "getitem_0 (JArr []) = Inl IndexError"
| "getitem_0 (JArr (x # xs)) = Inr x"
| "getitem_0 (JStr []) = Inl IndexError"
| "getitem_0 (JStr (c # cs)) = Inr (JStr [c])"
| "getitem_0 (JObj d) = Inl KeyError"
| "getitem_0 v = Inl TypeError"

text \<open>
  \<^verbatim>\<open>
  content = content.strip()
  if content.startswith("```"):
      content = content.split("\n", 1)[1] if "\n" in content else content[3:]
  if content.endswith("```"):
      content = content[:-3]
  content = content.strip()
  \<close>
\<close>

definition strip_fence :: "string \<Rightarrow> string" where
  "strip_fence content0 =
     (let c1 = strip content0;
          c2 = (if startswith c1 ''```''
                then (if CHR 0x0A \<in> set c1 then tl (dropWhile (\<lambda>c. c \<noteq> CHR 0x0A) c1)
                      else drop 3 c1)
                else c1);
          c3 = (if endswith c2 ''```'' then take (length c2 - 3) c2 else c2)
      in strip c3)"

text \<open>
  Lines 183 to 205 of \<open>call_llm\<close>, from the parsed body \<open>data\<close> to the returned
  record. A value without \<open>strip\<close> or \<open>get\<close> raises AttributeError, and assigning
  \<open>result["_meta"]\<close> on a parsed value that is not a dict raises TypeError; neither is
  caught by \<open>call_llm\<close>.
\<close>

definition parse_completion :: "env \<Rightarrow> nat \<Rightarrow> json \<Rightarrow> pyexn + jdict" where
  "parse_completion ev t data =
     (case getitem_key data ''choices'' of
        Inl e \<Rightarrow> Inl e
      | Inr choices \<Rightarrow>
     (case getitem_0 choices of
        Inl e \<Rightarrow> Inl e
      | Inr choice \<Rightarrow>
     (case getitem_key choice ''message'' of
        Inl e \<Rightarrow> Inl e
      | Inr message \<Rightarrow>
     (case getitem_key message ''content'' of
        Inl e \<Rightarrow> Inl e
      | Inr content \<Rightarrow>
     (case content of
        JStr c \<Rightarrow>
          (case json_loads ev (strip_fence c) of
             None \<Rightarrow> Inl JSONDecodeError
           | Some result \<Rightarrow>
               (case data of
                  JObj dd \<Rightarrow>
                    (case dict_get_default dd ''usage'' (JObj []) of
                       JObj usage \<Rightarrow>
                         (case result of
                            JObj r \<Rightarrow>
                              Inr (dict_set r ''_meta''
                                (JObj [(''input_tokens'',
                                          dict_get_default usage ''prompt_tokens'' (JInt 0)),
                                       (''output_tokens'',
                                          dict_get_default usage ''completion_tokens'' (JInt 0)),
                                       (''model'', JStr MODEL),
                                       (''analyzed_at'', JStr (strftime ev t))]))
                          | other \<Rightarrow> Inl TypeError)
                     | other \<Rightarrow> Inl AttributeError)
                | other \<Rightarrow> Inl AttributeError))
      | other \<Rightarrow> Inl AttributeError)))))"

text \<open>The three handlers end alike: \<open>if attempt < MAX_RETRIES - 1: time.sleep(RETRY_DELAY)\<close>.\<close>

definition retry_pause :: "nat \<Rightarrow> world \<Rightarrow> world" where
  "retry_pause attempt w = (if attempt < MAX_RETRIES - 1 then sleep RETRY_DELAY w else w)"

datatype attempt_result = Returned jdict | Raised pyexn | Next_attempt

text \<open>
  One pass of the retry loop. \<open>raise_for_status\<close> raises for the codes 400 to 599;
  the handlers catch JSONDecodeError, RequestException, KeyError and IndexError.
\<close>

definition caught :: "pyexn \<Rightarrow> bool" where
  "caught e = (e = JSONDecodeError \<or> e = RequestException \<or> e = KeyError \<or> e = IndexError)"

definition attempt_once ::
  "env \<Rightarrow> string \<Rightarrow> string \<Rightarrow> nat \<Rightarrow> world \<Rightarrow> attempt_result \<times> world" where
  "attempt_once ev text fname attempt w =
     (let w1 = w\<lparr>calls := calls w + 1\<rparr> in
      case service ev (calls w) fname text of
        Request_failed \<Rightarrow> (Next_attempt, retry_pause attempt w1)
      | Response code body \<Rightarrow>
          if code = 429 then (Next_attempt, sleep (RETRY_DELAY * (of_nat attempt + 2)) w1)
          else if 400 \<le> code \<and> code < 600 then (Next_attempt, retry_pause attempt w1)
          else
            (case body of
               None \<Rightarrow> (Next_attempt, retry_pause attempt w1)
             | Some data \<Rightarrow>
                 (case parse_completion ev (calls w1) data of
                    Inr result \<Rightarrow> (Returned result, w1)
                  | Inl e \<Rightarrow>
                      if caught e then (Next_attempt, retry_pause attempt w1)
                      else (Raised e, w1))))"

text \<open>Decimal digits of a number, for the f-string of the last line.\<close>

fun str_nat :: "nat \<Rightarrow> string" where
  "str_nat n =
     (if n < 10 then [char_of (48 + n)]
      else str_nat (n div 10) @ [char_of (48 + n mod 10)])"

definition exhausted :: "string \<Rightarrow> jdict" where
  "exhausted fname =
     [(''error'', JStr (''Failed after '' @ str_nat MAX_RETRIES @ '' attempts'')),
      (''filename'', JStr fname)]"

text \<open>\<open>for attempt in range(MAX_RETRIES): ...\<close>, then the terminal error record.\<close>

fun call_llm_loop ::
  "env \<Rightarrow> string \<Rightarrow> string \<Rightarrow> nat list \<Rightarrow> world \<Rightarrow> (pyexn + jdict) \<times> world" where
  "call_llm_loop ev text fname [] w = (Inr (exhausted fname), w)"
| "call_llm_loop ev text fname (attempt # rest) w =
     (case attempt_once ev text fname attempt w of
        (Returned result, w') \<Rightarrow> (Inr result, w')
      | (Raised e, w') \<Rightarrow> (Inl e, w')
      | (Next_attempt, w') \<Rightarrow> call_llm_loop ev text fname rest w')"

definition call_llm :: "env \<Rightarrow> string \<Rightarrow> string \<Rightarrow> world \<Rightarrow> (pyexn + jdict) \<times> world" where
  "call_llm ev text fname w = call_llm_loop ev text fname [0..<MAX_RETRIES] w"

subsection \<open>\<open>process_one\<close>\<close>

datatype status = Success | Skipped | No_pdf | Too_short | Error

record report =
  status :: status
  folder :: string
  chars :: "nat option"
  filename :: "string option"

definition too_short_record :: "string \<Rightarrow> nat \<Rightarrow> jdict" where
  "too_short_record fname n =
     [(''error'', JStr ''Extracted text too short - likely a scanned PDF''),
      (''filename'', JStr fname),
      (''extracted_chars'', JInt (int n))]"

text \<open>
  \<^verbatim>\<open>
  if os.path.exists(output_path):
      return {"status": "skipped", "folder": folder_name}
  pdfs = glob.glob(os.path.join(folder_path, "*.pdf"))
  if not pdfs:
      return {"status": "no_pdf", "folder": folder_name}
  pdf_path = pdfs[0]
  filename = os.path.basename(pdf_path)
  text = extract_text_from_pdf(pdf_path)
  if len(text) < 100:
      result = {"error": ..., "filename": filename, "extracted_chars": len(text)}
      ... json.dump(result, f, ...)
      return {"status": "too_short", "folder": folder_name, "chars": len(text)}
  result = call_llm(text, filename)
  ... json.dump(result, f, ...)
  status = "error" if "error" in result else "success"
  return {"status": status, "folder": folder_name, "filename": filename}
  \<close>
\<close>

definition process_one :: "env \<Rightarrow> string \<Rightarrow> world \<Rightarrow> (pyexn + report) \<times> world" where
  "process_one ev d w =
     (if analysis_json (fs w d) \<noteq> None
      then (Inr \<lparr>status = Skipped, folder = d, chars = None, filename = None\<rparr>, w)
      else
        (case pdfs (fs w d) of
           [] \<Rightarrow> (Inr \<lparr>status = No_pdf, folder = d, chars = None, filename = None\<rparr>, w)
         | (fname, doc) # others \<Rightarrow>
             (let text = extract_text_from_pdf doc;
                  w1 = w\<lparr>extractions := extractions w + 1\<rparr>
              in if length text < 100
                 then (Inr \<lparr>status = Too_short, folder = d,
                             chars = Some (length text), filename = None\<rparr>,
                       save_result d (too_short_record fname (length text)) w1)
                 else
                   (case call_llm ev text fname w1 of
                      (Inl e, w2) \<Rightarrow> (Inl e, w2)
                    | (Inr result, w2) \<Rightarrow>
                        (Inr \<lparr>status = (if has_key ''error'' result then Error else Success),
                               folder = d, chars = None, filename = Some fname\<rparr>,
                         save_result d result w2)))))"

subsection \<open>\<open>main\<close>\<close>

record args =
  dry_run :: bool
  limit :: int
  only_folder :: string

text \<open>
  How a run ends: \<open>sys.exit(1)\<close> for a missing key, the two early returns, or the end
  of the loop with the counters per status.
\<close>

datatype run_result =
    Missing_key
  | Dry_run
  | All_analyzed
  | Finished (counters: "status \<Rightarrow> nat")

definition has_pdf :: "world \<Rightarrow> string \<Rightarrow> bool" where
  "has_pdf w d = (pdfs (fs w d) \<noteq> [])"

definition is_done :: "world \<Rightarrow> string \<Rightarrow> bool" where
  "is_done w d = (analysis_json (fs w d) \<noteq> None)"

text \<open>The slice \<open>xs[:k]\<close>; a negative \<open>k\<close> drops from the end.\<close>

definition py_prefix :: "int \<Rightarrow> 'a list \<Rightarrow> 'a list" where
  "py_prefix k xs = (if 0 \<le> k then take (nat k) xs else take (length xs - nat (- k)) xs)"

definition pending_folders :: "world \<Rightarrow> string list \<Rightarrow> string list" where
  "pending_folders w folders = filter (\<lambda>f. has_pdf w f \<and> \<not> is_done w f) folders"

text \<open>
  The loop over the pending folders: \<open>process_one\<close>, the counter of its status, and
  \<open>time.sleep(RATE_LIMIT_DELAY)\<close>. An exception of \<open>process_one\<close> ends the run.
\<close>

fun run_items ::
  "env \<Rightarrow> string list \<Rightarrow> (status \<Rightarrow> nat) \<Rightarrow> world \<Rightarrow> (pyexn + (status \<Rightarrow> nat)) \<times> world" where
  "run_items ev [] stats w = (Inr stats, w)"
| "run_items ev (d # ds) stats w =
     (case process_one ev d w of
        (Inl e, w1) \<Rightarrow> (Inl e, w1)
      | (Inr rep, w1) \<Rightarrow>
          run_items ev ds (stats(status rep := stats (status rep) + 1))
            (sleep RATE_LIMIT_DELAY w1))"

definition main :: "env \<Rightarrow> args \<Rightarrow> world \<Rightarrow> (pyexn + run_result) \<times> world" where
  "main ev a w =
     (if api_key ev = [] then (Inr Missing_key, w)
      else
        (let folders = (if only_folder a \<noteq> [] then [only_folder a] else sort (entries w));
             n_pdf = int (length (filter (has_pdf w) folders));
             already_done = int (length (filter (is_done w) folders));
             to_process = n_pdf - already_done
         in if dry_run a then (Inr Dry_run, w)
            else if to_process = 0 then (Inr All_analyzed, w)
            else
              (let lim = (if limit a > 0 then limit a else to_process) in
               case run_items ev (py_prefix lim (pending_folders w folders)) (\<lambda>s. 0) w of
                 (Inl e, w') \<Rightarrow> (Inl e, w')
               | (Inr stats, w') \<Rightarrow> (Inr (Finished stats), w'))))"

section \<open>Error records\<close>

text \<open>
  The two records analyze.py writes for a failed item are \<open>too_short_record\<close> and
  \<open>exhausted\<close>: an \<open>error\<close> key, and no key but \<open>error\<close>, \<open>filename\<close> and
  \<open>extracted_chars\<close>.
\<close>

definition is_error_record :: "jdict \<Rightarrow> bool" where
  "is_error_record obj =
     (has_key ''error'' obj \<and>
      list_all (\<lambda>k. k = ''error'' \<or> k = ''filename'' \<or> k = ''extracted_chars'') (map fst obj))"

section \<open>Example corpora\<close>

definition empty_folder :: folder_contents where
  "empty_folder = \<lparr>pdfs = [], analysis_json = None\<rparr>"

text \<open>A corpus before a run: nothing sent, nothing slept, nothing extracted.\<close>

definition corpus :: "string list \<Rightarrow> (string \<Rightarrow> folder_contents) \<Rightarrow> world" where
  "corpus names f = \<lparr>entries = names, fs = f, calls = 0, slept = [], extractions = 0\<rparr>"

definition analysed :: "file_content \<Rightarrow> folder_contents" where
  "analysed f = \<lparr>pdfs = [(''paper.pdf'', Pages [])], analysis_json = Some f\<rparr>"

definition paper_core :: jdict where
  "paper_core =
     [(''title'', JStr ''Transfer learning for alloys''),
      (''year'', JInt 2021),
      (''primary_category'', JStr ''E. Core literature''),
      (''secondary_categories'', JArr [JStr ''d'']),
      (''relevance_score'', JStr ''four''),
      (''core_technique'', JArr [JStr ''Fine-tuning''])]"

definition paper_no_score :: jdict where
  "paper_no_score =
     [(''title'', JStr ''Creep of steels''),
      (''primary_category'', JStr ''a. traditional'')]"

definition paper_unscored :: jdict where
  "paper_unscored =
     [(''title'', JStr ''A survey''),
      (''primary_category'', JStr ''B''),
      (''relevance_score'', JNull)]"

text \<open>
  Four processed folders, listed out of order: a success record with a non-numeric
  score, the error record of a scanned PDF, a file that is not JSON, and a success
  record whose score is null.
\<close>

definition aggregated_corpus :: world where
  "aggregated_corpus =
     corpus [''P3'', ''P1'', ''P4'', ''P2'']
       ((\<lambda>d. empty_folder)
          (''P1'' := analysed (Json (JObj paper_core)),
           ''P2'' := analysed (Json (JObj (too_short_record ''scan.pdf'' 40))),
           ''P3'' := analysed Unparseable,
           ''P4'' := analysed (Json (JObj paper_unscored))))"

section \<open>Failure classes of the extraction client\<close>

text \<open>
  The responses \<open>call_llm\<close> answers with a retry: a rate-limited response (429), a
  transport or protocol failure (an exception of \<open>requests\<close>, an error status, a body
  without the expected fields) and a malformed body (not JSON, or a completion that
  \<open>json.loads\<close> rejects). The second argument is the clock of \<open>parse_completion\<close>.
\<close>

definition retryable :: "env \<Rightarrow> nat \<Rightarrow> http_result \<Rightarrow> bool" where
  "retryable ev t resp =
     (case resp of
        Request_failed \<Rightarrow> True
      | Response code body \<Rightarrow>
          code = 429 \<or> (400 \<le> code \<and> code < 600) \<or>
          (case body of
             None \<Rightarrow> True
           | Some data \<Rightarrow>
               (case parse_completion ev t data of Inl e \<Rightarrow> caught e | Inr r \<Rightarrow> False)))"

section \<open>Example services and an unprocessed corpus\<close>

definition quoted :: "string \<Rightarrow> string" where
  "quoted s = [CHR 0x22] @ s @ [CHR 0x22]"

definition doc_ok :: string where
  "doc_ok = ''{'' @ quoted ''title'' @ '': '' @ quoted ''T'' @ ''}''"

definition doc_err :: string where
  "doc_err = ''{'' @ quoted ''error'' @ '': '' @ quoted ''no abstract'' @ ''}''"

text \<open>A stand-in for \<open>json.loads\<close> that reads the two documents above and nothing else.\<close>

definition example_loads :: "string \<Rightarrow> json option" where
  "example_loads s =
     (if s = doc_ok then Some (JObj [(''title'', JStr ''T'')])
      else if s = doc_err then Some (JObj [(''error'', JStr ''no abstract'')])
      else None)"

text \<open>The body of a completion response whose message content is \<open>c\<close>.\<close>

definition completion :: "string \<Rightarrow> json" where
  "completion c =
     JObj [(''choices'', JArr [JObj [(''message'', JObj [(''content'', JStr c)])]]),
           (''usage'', JObj [(''prompt_tokens'', JInt 1200), (''completion_tokens'', JInt 300)])]"

definition fenced :: "string \<Rightarrow> string" where
  "fenced c = ''```json'' @ [CHR 0x0A] @ c @ [CHR 0x0A] @ ''```''"

definition example_env :: "(nat \<Rightarrow> string \<Rightarrow> string \<Rightarrow> http_result) \<Rightarrow> env" where
  "example_env svc =
     \<lparr>api_key = ''sk-test'', service = svc, json_loads = example_loads,
      strftime = (\<lambda>t. ''2024-05-01 12:00:00'')\<rparr>"

definition service_ok :: "nat \<Rightarrow> string \<Rightarrow> string \<Rightarrow> http_result" where
  "service_ok n fname text = Response 200 (Some (completion (fenced doc_ok)))"

definition service_rate_limited_twice :: "nat \<Rightarrow> string \<Rightarrow> string \<Rightarrow> http_result" where
  "service_rate_limited_twice n fname text =
     (if n < 2 then Response 429 None else Response 200 (Some (completion (fenced doc_ok))))"

definition service_error_payload :: "nat \<Rightarrow> string \<Rightarrow> string \<Rightarrow> http_result" where
  "service_error_payload n fname text = Response 200 (Some (completion doc_err))"

definition service_mixed_failures :: "nat \<Rightarrow> string \<Rightarrow> string \<Rightarrow> http_result" where
  "service_mixed_failures n fname text =
     (if n = 0 then Request_failed
      else if n = 1 then Response 200 (Some (completion ''not json''))
      else Response 429 None)"

text \<open>
  Five folders: two already analysed, one without a PDF, one whose PDF gives 40
  characters, one whose PDF gives 150.
\<close>

definition five_items :: world where
  "five_items =
     corpus [''V1'', ''D1'', ''S1'', ''N1'', ''D2'']
       ((\<lambda>d. empty_folder)
          (''D1'' := analysed (Json (JObj paper_core)),
           ''D2'' := analysed (Json (JObj (exhausted ''old.pdf''))),
           ''S1'' := \<lparr>pdfs = [(''scan.pdf'', Pages [replicate 40 (CHR ''y'')])],
                     analysis_json = None\<rparr>,
           ''V1'' := \<lparr>pdfs = [(''valid.pdf'', Pages [replicate 100 (CHR ''x''),
                                                     replicate 50 (CHR ''z'')])],
                     analysis_json = None\<rparr>))"

definition no_limit :: args where
  "no_limit = \<lparr>dry_run = False, limit = 0, only_folder = []\<rparr>"

section \<open>Properties of the taxonomy normalization\<close>

subsection \<open>\<open>strip\<close>\<close>

lemma strip_split: "\<exists>w. dropWhile is_space s = strip s @ w"
proof -
  let ?u = "dropWhile is_space s"
  have "rev ?u = takeWhile is_space (rev ?u) @ dropWhile is_space (rev ?u)" by simp
  then have "rev (rev ?u) = rev (takeWhile is_space (rev ?u) @ dropWhile is_space (rev ?u))"
    by (rule arg_cong)
  then have "?u = rev (dropWhile is_space (rev ?u)) @ rev (takeWhile is_space (rev ?u))"
    by (simp only: rev_rev_ident rev_append)
  then show ?thesis unfolding strip_def by blast
qed

lemma strip_hd: "strip s \<noteq> [] \<Longrightarrow> \<not> is_space (hd (strip s))"
proof -
  assume ne: "strip s \<noteq> []"
  obtain w where w: "dropWhile is_space s = strip s @ w" using strip_split by blast
  then have "dropWhile is_space s \<noteq> []" using ne by auto
  then have "\<not> is_space (hd (dropWhile is_space s))" by (rule hd_dropWhile)
  then show ?thesis using w ne by simp
qed

lemma strip_Nil: "strip [] = []"
  by (simp add: strip_def)

lemma strip_idem: "strip (strip s) = strip s"
proof (cases "strip s = []")
  case True
  then show ?thesis by (simp add: strip_Nil)
next
  case False
  then have "\<not> is_space (hd (strip s))" by (rule strip_hd)
  then have d: "dropWhile is_space (strip s) = strip s" using False
    by (cases "strip s") auto
  have "rev (strip s) = dropWhile is_space (rev (dropWhile is_space s))"
    by (simp add: strip_def)
  then have "dropWhile is_space (rev (strip s)) = rev (strip s)"
    by (simp only: dropWhile_idem)
  then have "rev (dropWhile is_space (rev (strip s))) = strip s" by simp
  then show ?thesis using d by (simp add: strip_def[of "strip s"])
qed

lemma normalize_technique_strip: "normalize_technique (strip s) = normalize_technique s"
  by (simp only: normalize_technique_def strip_idem)

lemma technique_range:
  "normalize_technique s \<in> set technique_labels \<or> normalize_technique s = strip s"
  unfolding normalize_technique_def technique_labels_def Let_def by simp

subsection \<open>Technique canonicalization\<close>

lemma labels_fixed: "map normalize_technique technique_labels = technique_labels"
  by code_simp

lemma label_fixed: "l \<in> set technique_labels \<Longrightarrow> normalize_technique l = l"
proof -
  assume l: "l \<in> set technique_labels"
  have "map normalize_technique technique_labels = map (\<lambda>x. x) technique_labels"
    using labels_fixed by simp
  then have "\<forall>x \<in> set technique_labels. normalize_technique x = x"
    by (simp only: map_eq_conv)
  then show ?thesis using l by blast
qed

lemma normalize_technique_idem:
  "normalize_technique (normalize_technique s) = normalize_technique s"
proof (cases "normalize_technique s \<in> set technique_labels")
  case True
  then show ?thesis by (rule label_fixed)
next
  case False
  then have "normalize_technique s = strip s" using technique_range by blast
  then show ?thesis by (simp add: normalize_technique_strip)
qed

text \<open>
  C7. Technique canonicalization is idempotent on the canonical labels: each of the
  twelve names a rule returns is mapped to itself, so none of them matches an earlier,
  different rule; and every value \<open>normalize_technique\<close> returns is one of these names
  or the stripped input.
\<close>

theorem normalize_technique_labels_fixed:
  "map normalize_technique technique_labels = technique_labels \<and>
   (\<forall>s. normalize_technique s \<in> set technique_labels \<or> normalize_technique s = strip s)"
  using labels_fixed technique_range by blast

theorem normalize_technique_labels_fixed_witness:
  "normalize_technique ''Physics-Informed Methods / PINN'' = ''Physics-Informed Methods / PINN''
   \<and> normalize_technique ''Generative Models (GAN/VAE/Diffusion)''
       = ''Generative Models (GAN/VAE/Diffusion)''"
  using normalize_technique_labels_fixed by (simp add: technique_labels_def)

subsection \<open>Category normalization\<close>

lemma contains_single: "contains [c] s = (c \<in> set s)"
  by (induction s) (auto simp: startswith_def)

lemma contains_category: "contains [c] ''ABCDEF'' \<Longrightarrow> [c] \<in> set category_values"
  unfolding contains_single category_values_def by auto

lemma normalize_category_closed:
  assumes "normalize_category v = Inr c"
  shows "c \<in> set category_values"
proof (cases v)
  case (JStr s)
  show ?thesis
  proof (cases "strip s")
    case Nil
    then show ?thesis using JStr assms
      by (auto simp: normalize_category_def category_values_def split: if_splits)
  next
    case (Cons c0 rest)
    then show ?thesis using JStr assms contains_category[of "upper_char c0"]
      by (auto simp: normalize_category_def Let_def upper_def category_values_def
               simp del: contains.simps split: if_splits)
  qed
qed (use assms in \<open>auto simp: normalize_category_def category_values_def\<close>)

lemma normalize_category_raises:
  "normalize_category v = Inl e \<longleftrightarrow>
     (\<exists>s. v = JStr s \<and> s \<noteq> [] \<and> strip s = [] \<and> e = IndexError)"
  by (cases v)
     (auto simp: normalize_category_def Let_def simp del: contains.simps split: list.splits)

lemma normalize_category_example:
  "normalize_category (JStr ''E. Core literature'') = Inr ''E''"
  by code_simp

text \<open>
  C3. \<open>normalize_category\<close> is not total: on a string of three blanks, which is
  non-empty and so passes the guard, \<open>cat.strip()[0]\<close> raises IndexError. (By
  \<open>normalize_category_raises\<close> the whitespace-only strings are the only inputs
  on which it raises, and by \<open>normalize_category_closed\<close> every value it returns is
  one of A to F or Unknown.)
\<close>

theorem normalize_category_whitespace_raises:
  "normalize_category (JStr ''   '') = Inl IndexError"
  by code_simp

theorem normalize_category_whitespace_raises_witness:
  "truthy (JStr ''   '') \<and> is_str (JStr ''   '') \<and> strip ''   '' = []
   \<and> normalize_category (JStr ''   '') = Inl IndexError"
proof -
  have "strip ''   '' = []" by code_simp
  then show ?thesis using normalize_category_whitespace_raises by simp
qed

section \<open>Properties of the aggregation\<close>

lemma map_of_dict_set:
  "map_of (dict_set d k v) k' = (if k' = k then Some v else map_of d k')"
  by (induction d) auto

lemma has_key_dict_set: "has_key k' (dict_set d k v) = (k' = k \<or> has_key k' d)"
  by (simp add: has_key_def map_of_dict_set)

lemma dict_get_dict_set:
  "dict_get (dict_set d k v) k' = (if k' = k then v else dict_get d k')"
  by (simp add: dict_get_def map_of_dict_set)

lemma normalize_secondary_other:
  "normalize_secondary data = Inr data' \<Longrightarrow> k \<noteq> ''secondary_categories''
     \<Longrightarrow> map_of data' k = map_of data k"
  by (auto simp: normalize_secondary_def map_of_dict_set split: if_splits sum.splits)

lemma normalize_secondary_absent:
  "\<not> has_key ''secondary_categories'' data \<Longrightarrow> normalize_secondary data = Inr data"
  by (simp add: normalize_secondary_def)

lemma error_record_keys:
  assumes "is_error_record obj" and "k \<noteq> ''error''" and "k \<noteq> ''filename''"
    and "k \<noteq> ''extracted_chars''"
  shows "map_of obj k = None"
proof -
  have "k \<notin> fst ` set obj" using assms by (auto simp: is_error_record_def list_all_iff)
  then show ?thesis by (simp add: map_of_eq_None_iff)
qed

lemma normalize_category_null: "normalize_category JNull = Inr ''Unknown''"
  by (simp add: normalize_category_def)

lemma load_record_error_record:
  assumes "is_error_record obj"
  shows "load_record d (Json (JObj obj)) =
           Inr (dict_set (dict_set obj ''_folder'' (JStr d)) ''primary_category'' (JStr ''Unknown''))"
proof -
  have k: "map_of obj ''primary_category'' = None" "map_of obj ''secondary_categories'' = None"
    "map_of obj ''relevance_score'' = None"
    using assms by (simp_all add: error_record_keys)
  show ?thesis
    by (simp add: load_record_def Let_def dict_get_def map_of_dict_set k normalize_category_null
          normalize_secondary_def has_key_def)
qed

lemma deep_load_record_error_record:
  assumes "is_error_record obj"
  shows "deep_load_record d (Json (JObj obj)) =
           Inr (dict_set (dict_set (dict_set (dict_set obj ''_folder'' (JStr d))
                  ''primary_category'' (JStr ''Unknown''))
                  ''relevance_score'' (JInt 0)) ''year'' (JInt 0))"
proof -
  have k: "map_of obj ''primary_category'' = None" "map_of obj ''secondary_categories'' = None"
    "map_of obj ''relevance_score'' = None" "map_of obj ''year'' = None"
    using assms by (simp_all add: error_record_keys)
  show ?thesis
    by (simp add: deep_load_record_def Let_def dict_get_def map_of_dict_set k
          normalize_category_null normalize_secondary_def has_key_def safe_int_def)
qed

text \<open>What one folder contributes to the results and to the error list.\<close>

lemma load_loop_fst:
  "fst (load_loop w ds rs es) =
     rs @ concat (map (\<lambda>d. case analysis_json (fs w d) of
                               None \<Rightarrow> []
                             | Some f \<Rightarrow> (case load_record d f of Inr data \<Rightarrow> [data] | Inl e \<Rightarrow> [])) ds)"
  by (induction ds arbitrary: rs es) (auto split: option.splits sum.splits)

lemma load_loop_snd:
  "snd (load_loop w ds rs es) =
     es @ concat (map (\<lambda>d. case analysis_json (fs w d) of
                               None \<Rightarrow> []
                             | Some f \<Rightarrow> (case load_record d f of Inr data \<Rightarrow> [] | Inl e \<Rightarrow> [(d, e)])) ds)"
  by (induction ds arbitrary: rs es) (auto split: option.splits sum.splits)

lemma deep_load_loop_eq:
  "deep_load_loop w ds rs =
     rs @ concat (map (\<lambda>d. case analysis_json (fs w d) of
                               None \<Rightarrow> []
                             | Some f \<Rightarrow> (case deep_load_record d f of Inr data \<Rightarrow> [data] | Inl e \<Rightarrow> [])) ds)"
  by (induction ds arbitrary: rs) (auto split: option.splits sum.splits)

lemma folder_result_iff:
  "r \<in> set (case analysis_json (fs w d) of
               None \<Rightarrow> []
             | Some f \<Rightarrow> (case load_record d f of Inr data \<Rightarrow> [data] | Inl e \<Rightarrow> [])) \<longleftrightarrow>
     (\<exists>f. analysis_json (fs w d) = Some f \<and> load_record d f = Inr r)"
proof (cases "analysis_json (fs w d)")
  case None
  then show ?thesis by simp
next
  case (Some f)
  then show ?thesis by (cases "load_record d f") auto
qed

lemma folder_error_iff:
  "(d', e) \<in> set (case analysis_json (fs w d) of
               None \<Rightarrow> []
             | Some f \<Rightarrow> (case load_record d f of Inr data \<Rightarrow> [] | Inl e \<Rightarrow> [(d, e)])) \<longleftrightarrow>
     (\<exists>f. d' = d \<and> analysis_json (fs w d) = Some f \<and> load_record d f = Inl e)"
proof (cases "analysis_json (fs w d)")
  case None
  then show ?thesis by simp
next
  case (Some f)
  then show ?thesis by (cases "load_record d f") auto
qed

lemma deep_folder_result_iff:
  "r \<in> set (case analysis_json (fs w d) of
               None \<Rightarrow> []
             | Some f \<Rightarrow> (case deep_load_record d f of Inr data \<Rightarrow> [data] | Inl e \<Rightarrow> [])) \<longleftrightarrow>
     (\<exists>f. analysis_json (fs w d) = Some f \<and> deep_load_record d f = Inr r)"
proof (cases "analysis_json (fs w d)")
  case None
  then show ?thesis by simp
next
  case (Some f)
  then show ?thesis by (cases "deep_load_record d f") auto
qed

lemma load_all_results_iff:
  "r \<in> set (fst (load_all w)) \<longleftrightarrow>
     (\<exists>d f. d \<in> set (entries w) \<and> analysis_json (fs w d) = Some f \<and> load_record d f = Inr r)"
proof -
  define F where "F = (\<lambda>d. case analysis_json (fs w d) of
               None \<Rightarrow> []
             | Some f \<Rightarrow> (case load_record d f of Inr data \<Rightarrow> [data] | Inl e \<Rightarrow> []))"
  have 1: "fst (load_all w) = concat (map F (sort (entries w)))"
    by (simp add: load_all_def load_loop_fst F_def)
  have 2: "r \<in> set (F d) \<longleftrightarrow> (\<exists>f. analysis_json (fs w d) = Some f \<and> load_record d f = Inr r)"
    for d unfolding F_def by (rule folder_result_iff)
  have "r \<in> set (fst (load_all w)) \<longleftrightarrow> (\<exists>d \<in> set (entries w). r \<in> set (F d))"
    by (simp add: 1)
  then show ?thesis unfolding 2 by blast
qed

lemma load_all_errors_iff:
  "(d, e) \<in> set (snd (load_all w)) \<longleftrightarrow>
     (\<exists>f. d \<in> set (entries w) \<and> analysis_json (fs w d) = Some f \<and> load_record d f = Inl e)"
proof -
  define F where "F = (\<lambda>d. case analysis_json (fs w d) of
               None \<Rightarrow> []
             | Some f \<Rightarrow> (case load_record d f of Inr data \<Rightarrow> [] | Inl e \<Rightarrow> [(d, e)]))"
  have 1: "snd (load_all w) = concat (map F (sort (entries w)))"
    by (simp add: load_all_def load_loop_snd F_def)
  have 2: "(d, e) \<in> set (F d') \<longleftrightarrow>
             (\<exists>f. d = d' \<and> analysis_json (fs w d') = Some f \<and> load_record d' f = Inl e)"
    for d' unfolding F_def by (rule folder_error_iff)
  have "(d, e) \<in> set (snd (load_all w)) \<longleftrightarrow> (\<exists>d' \<in> set (entries w). (d, e) \<in> set (F d'))"
    by (simp add: 1)
  then show ?thesis unfolding 2 by blast
qed

lemma deep_load_all_iff:
  "r \<in> set (deep_load_all w) \<longleftrightarrow>
     (\<exists>d f. d \<in> set (entries w) \<and> analysis_json (fs w d) = Some f \<and> deep_load_record d f = Inr r)"
proof -
  define F where "F = (\<lambda>d. case analysis_json (fs w d) of
               None \<Rightarrow> []
             | Some f \<Rightarrow> (case deep_load_record d f of Inr data \<Rightarrow> [data] | Inl e \<Rightarrow> []))"
  have 1: "deep_load_all w = concat (map F (sort (entries w)))"
    by (simp add: deep_load_all_def deep_load_loop_eq F_def)
  have 2: "r \<in> set (F d) \<longleftrightarrow>
             (\<exists>f. analysis_json (fs w d) = Some f \<and> deep_load_record d f = Inr r)"
    for d unfolding F_def by (rule deep_folder_result_iff)
  have "r \<in> set (deep_load_all w) \<longleftrightarrow> (\<exists>d \<in> set (entries w). r \<in> set (F d))"
    by (simp add: 1)
  then show ?thesis unfolding 2 by blast
qed

lemma load_record_folder:
  assumes "load_record d f = Inr r"
  shows "map_of r ''_folder'' = Some (JStr d)"
  using assms
  by (auto simp: load_record_def Let_def map_of_dict_set
           dest!: normalize_secondary_other[where k = "''_folder''"]
           split: file_content.splits json.splits sum.splits if_splits)

lemma deep_load_record_folder:
  assumes "deep_load_record d f = Inr r"
  shows "map_of r ''_folder'' = Some (JStr d)"
  using assms
  by (auto simp: deep_load_record_def Let_def map_of_dict_set
           dest!: normalize_secondary_other[where k = "''_folder''"]
           split: file_content.splits json.splits sum.splits if_splits)

lemma counter_get_add:
  "counter_get (counter_add k c) k' = counter_get c k' + (if k' = k then 1 else 0)"
  by (induction c) (auto simp: counter_get_def)

lemma row_total_add: "row_total (counter_add k row) = row_total row + 1"
  by (induction row) (auto simp: row_total_def)

lemma map_of_cross_add:
  "map_of (cross_add cat score cross) c =
     (if c = cat
      then Some (counter_add score (case map_of cross cat of None \<Rightarrow> [] | Some row \<Rightarrow> row))
      else map_of cross c)"
  by (induction cross) auto

lemma cross_row_add:
  "row_total (cross_row (cross_add cat score cross) c) =
     row_total (cross_row cross c) + (if JStr c = cat then 1 else 0)"
  by (simp add: cross_row_def map_of_cross_add row_total_add split: option.splits)

lemma cross_row_empty: "row_total (cross_row [] c) = 0"
  by (simp add: cross_row_def row_total_def)

lemma counter_get_empty: "counter_get [] k = 0"
  by (simp add: counter_get_def)

lemma primary_fold:
  "counter_get
     (foldl (\<lambda>primary r. counter_add (dict_get_default r ''primary_category'' dflt) primary)
        acc results) k =
   counter_get acc k
     + length (filter (\<lambda>r. dict_get_default r ''primary_category'' dflt = k) results)"
  by (induction results arbitrary: acc) (auto simp: counter_get_add)

lemma cross_fold:
  "row_total (cross_row
     (foldl (\<lambda>cross r. cross_add (dict_get_default r ''primary_category'' dflt)
                          (dict_get_default r ''relevance_score'' dflt') cross)
        acc results) c) =
   row_total (cross_row acc c)
     + length (filter (\<lambda>r. dict_get_default r ''primary_category'' dflt = JStr c) results)"
  by (induction results arbitrary: acc) (auto simp: cross_row_add)

lemma default_irrelevant:
  assumes "dflt \<noteq> k" and "dflt' \<noteq> k"
  shows "(dict_get_default r key dflt = k) = (dict_get_default r key dflt' = k)"
  using assms by (auto simp: dict_get_default_def split: option.splits)

lemma crosstab_row_total:
  assumes "cat \<in> set category_order"
  shows "row_total (cross_row (crosstab results) cat) =
         counter_get (primary_counts results) (JStr cat)"
proof -
  have a: "JStr ''?'' \<noteq> JStr cat" and b: "JStr ''Unknown'' \<noteq> JStr cat"
    using assms by (auto simp: category_order_def)
  have "(\<lambda>r. dict_get_default r ''primary_category'' (JStr ''?'') = JStr cat) =
        (\<lambda>r. dict_get_default r ''primary_category'' (JStr ''Unknown'') = JStr cat)"
    using default_irrelevant[OF a b] by blast
  then show ?thesis
    unfolding crosstab_def primary_counts_def cross_fold primary_fold
    by (simp add: cross_row_empty counter_get_empty)
qed

lemma primary_counts_count:
  "counter_get (primary_counts results) k =
     length (filter (\<lambda>r. dict_get_default r ''primary_category'' (JStr ''Unknown'') = k) results)"
  unfolding primary_counts_def primary_fold by (simp add: counter_get_empty)

lemma primary_counts_member:
  assumes "r \<in> set results" and "map_of r ''primary_category'' = Some k"
  shows "1 \<le> counter_get (primary_counts results) k"
proof -
  have "r \<in> set (filter (\<lambda>r. dict_get_default r ''primary_category'' (JStr ''Unknown'') = k) results)"
    using assms by (simp add: dict_get_default_def)
  then have "0 < length (filter (\<lambda>r. dict_get_default r ''primary_category'' (JStr ''Unknown'') = k) results)"
    by (metis length_pos_if_in_set)
  then show ?thesis unfolding primary_counts_count by (simp add: Suc_le_eq)
qed

lemma too_short_is_error_record: "is_error_record (too_short_record fname n)"
  by (simp add: is_error_record_def too_short_record_def has_key_def)

lemma exhausted_is_error_record: "is_error_record (exhausted fname)"
  by (simp add: is_error_record_def exhausted_def has_key_def)

text \<open>
  C1, as the code has it. An ErrorRecord is a JSON object like any other, so both
  loaders keep it: for a folder of the listing whose \<open>analysis.json\<close> holds an error
  record, \<open>load_all\<close> of summarize.py returns the record among its results (with its
  folder and the primary category Unknown), does not name the folder in its error
  list, and the primary-category distribution counts it under Unknown; \<open>load_all\<close> of
  deep\_analysis.py returns it too, with score and year 0. Only a file whose load
  raises is kept out of the statistics.
\<close>
theorem error_records_are_loaded:
  assumes "d \<in> set (entries w)"
    and "analysis_json (fs w d) = Some (Json (JObj obj))"
    and "is_error_record obj"
  shows "dict_set (dict_set obj ''_folder'' (JStr d)) ''primary_category'' (JStr ''Unknown'')
           \<in> set (fst (load_all w))
         \<and> d \<notin> fst ` set (snd (load_all w))
         \<and> 1 \<le> counter_get (primary_counts (fst (load_all w))) (JStr ''Unknown'')
         \<and> dict_set (dict_set (dict_set (dict_set obj ''_folder'' (JStr d))
                ''primary_category'' (JStr ''Unknown''))
                ''relevance_score'' (JInt 0)) ''year'' (JInt 0)
           \<in> set (deep_load_all w)"
proof -
  let ?r = "dict_set (dict_set obj ''_folder'' (JStr d)) ''primary_category'' (JStr ''Unknown'')"
  have l: "load_record d (Json (JObj obj)) = Inr ?r"
    using assms(3) by (rule load_record_error_record)
  have 1: "?r \<in> set (fst (load_all w))"
    unfolding load_all_results_iff using assms(1,2) l by blast
  have 2: "d \<notin> fst ` set (snd (load_all w))"
  proof
    assume "d \<in> fst ` set (snd (load_all w))"
    then obtain e where "(d, e) \<in> set (snd (load_all w))" by force
    then show False unfolding load_all_errors_iff using assms(2) l by simp
  qed
  have "map_of ?r ''primary_category'' = Some (JStr ''Unknown'')"
    by (simp add: map_of_dict_set)
  then have 3: "1 \<le> counter_get (primary_counts (fst (load_all w))) (JStr ''Unknown'')"
    using 1 by (rule primary_counts_member[rotated])
  have 4: "dict_set (dict_set (dict_set (dict_set obj ''_folder'' (JStr d))
                ''primary_category'' (JStr ''Unknown''))
                ''relevance_score'' (JInt 0)) ''year'' (JInt 0) \<in> set (deep_load_all w)"
    unfolding deep_load_all_iff
    using assms(1,2) deep_load_record_error_record[OF assms(3)] by blast
  show ?thesis using 1 2 3 4 by blast
qed

theorem error_records_are_loaded_witness:
  "dict_set (dict_set (too_short_record ''scan.pdf'' 40) ''_folder'' (JStr ''P2''))
       ''primary_category'' (JStr ''Unknown'')
     \<in> set (fst (load_all aggregated_corpus))
   \<and> ''P2'' \<notin> fst ` set (snd (load_all aggregated_corpus))
   \<and> 1 \<le> counter_get (primary_counts (fst (load_all aggregated_corpus))) (JStr ''Unknown'')
   \<and> dict_set (dict_set (dict_set (dict_set (too_short_record ''scan.pdf'' 40)
          ''_folder'' (JStr ''P2''))
          ''primary_category'' (JStr ''Unknown''))
          ''relevance_score'' (JInt 0)) ''year'' (JInt 0)
     \<in> set (deep_load_all aggregated_corpus)"
proof -
  have a: "''P2'' \<in> set (entries aggregated_corpus)"
    by (simp add: aggregated_corpus_def corpus_def)
  have b: "analysis_json (fs aggregated_corpus ''P2'')
             = Some (Json (JObj (too_short_record ''scan.pdf'' 40)))"
    by (simp add: aggregated_corpus_def corpus_def analysed_def)
  show ?thesis
    by (rule error_records_are_loaded[OF a b too_short_is_error_record])
qed

theorem error_record_in_statistics_counterexample:
  "fst (load_all aggregated_corpus) ! 1 =
     [(''error'', JStr ''Extracted text too short - likely a scanned PDF''),
      (''filename'', JStr ''scan.pdf''), (''extracted_chars'', JInt 40),
      (''_folder'', JStr ''P2''), (''primary_category'', JStr ''Unknown'')]
   \<and> length (fst (load_all aggregated_corpus)) = 3
   \<and> snd (load_all aggregated_corpus) = [(''P3'', JSONDecodeError)]
   \<and> primary_counts (fst (load_all aggregated_corpus))
       = [(JStr ''E'', 1), (JStr ''Unknown'', 1), (JStr ''B'', 1)]"
  by code_simp

lemma py_int_raises: "py_int v = Inl e \<Longrightarrow> e = TypeError \<or> e = ValueError \<or> e = OverflowError"
  by (cases v) (auto split: option.splits)

lemma py_int_overflow: "py_int v = Inl OverflowError \<longleftrightarrow> v = JInfinity"
  by (cases v) (auto split: option.splits)

lemma normalize_secondary_isl_set:
  assumes "k \<noteq> ''secondary_categories''"
  shows "isl (normalize_secondary (dict_set data k v)) = isl (normalize_secondary data)"
  using assms
  by (simp add: normalize_secondary_def has_key_def dict_get_default_def map_of_dict_set
           split: sum.splits)

lemma dict_get_primary_folder:
  "dict_get (dict_set obj ''_folder'' v) ''primary_category'' = dict_get obj ''primary_category''"
  by (simp add: dict_get_dict_set)

lemma load_record_steps:
  assumes "\<not> isl (normalize_category (dict_get obj ''primary_category''))"
    and "\<not> isl (normalize_secondary obj)"
  obtains c data' where
    "normalize_category (dict_get (dict_set obj ''_folder'' (JStr d)) ''primary_category'') = Inr c"
    "normalize_secondary (dict_set (dict_set obj ''_folder'' (JStr d)) ''primary_category'' (JStr c))
       = Inr data'"
    "map_of data' ''relevance_score'' = map_of obj ''relevance_score''"
proof -
  obtain c where c: "normalize_category (dict_get obj ''primary_category'') = Inr c"
    using assms(1) by (cases "normalize_category (dict_get obj ''primary_category'')") auto
  let ?d1 = "dict_set (dict_set obj ''_folder'' (JStr d)) ''primary_category'' (JStr c)"
  have "\<not> isl (normalize_secondary ?d1)"
    using assms(2) by (simp add: normalize_secondary_isl_set)
  then obtain data' where s: "normalize_secondary ?d1 = Inr data'"
    by (cases "normalize_secondary ?d1") auto
  have "map_of data' ''relevance_score'' = map_of ?d1 ''relevance_score''"
    using s by (rule normalize_secondary_other) simp
  then have m: "map_of data' ''relevance_score'' = map_of obj ''relevance_score''"
    by (simp add: map_of_dict_set)
  show ?thesis using that[of c data'] c s m by (simp add: dict_get_primary_folder)
qed

lemma load_record_scored:
  assumes "\<not> isl (normalize_category (dict_get obj ''primary_category''))"
    and "\<not> isl (normalize_secondary obj)"
    and "map_of obj ''relevance_score'' = Some v" and "v \<noteq> JNull" and "v \<noteq> JInfinity"
  shows "\<exists>r. load_record d (Json (JObj obj)) = Inr r
             \<and> map_of r ''relevance_score''
                 = Some (JInt (case py_int v of Inr n \<Rightarrow> n | Inl e \<Rightarrow> 0))"
proof -
  obtain c data' where
    c: "normalize_category (dict_get (dict_set obj ''_folder'' (JStr d)) ''primary_category'') = Inr c"
    and s: "normalize_secondary (dict_set (dict_set obj ''_folder'' (JStr d)) ''primary_category'' (JStr c))
       = Inr data'"
    and m: "map_of data' ''relevance_score'' = map_of obj ''relevance_score''"
    using load_record_steps[OF assms(1,2)] by blast
  have g: "dict_get data' ''relevance_score'' = v" using m assms(3) by (simp add: dict_get_def)
  show ?thesis
  proof (cases "py_int v")
    case (Inl e)
    then have "e \<noteq> OverflowError" using assms(5) py_int_overflow by blast
    then have "e = ValueError \<or> e = TypeError" using py_int_raises[OF Inl] by blast
    then have "load_record d (Json (JObj obj)) = Inr (dict_set data' ''relevance_score'' (JInt 0))"
      using c s g assms(4) Inl by (simp add: load_record_def Let_def)
    then show ?thesis using Inl by (simp add: map_of_dict_set)
  next
    case (Inr n)
    then have "load_record d (Json (JObj obj)) = Inr (dict_set data' ''relevance_score'' (JInt n))"
      using c s g assms(4) by (simp add: load_record_def Let_def)
    then show ?thesis using Inr by (simp add: map_of_dict_set)
  qed
qed

lemma load_record_unscored:
  assumes "\<not> isl (normalize_category (dict_get obj ''primary_category''))"
    and "\<not> isl (normalize_secondary obj)"
    and "map_of obj ''relevance_score'' = None"
  shows "\<exists>r. load_record d (Json (JObj obj)) = Inr r \<and> map_of r ''relevance_score'' = None"
proof -
  obtain c data' where
    c: "normalize_category (dict_get (dict_set obj ''_folder'' (JStr d)) ''primary_category'') = Inr c"
    and s: "normalize_secondary (dict_set (dict_set obj ''_folder'' (JStr d)) ''primary_category'' (JStr c))
       = Inr data'"
    and m: "map_of data' ''relevance_score'' = map_of obj ''relevance_score''"
    using load_record_steps[OF assms(1,2)] by blast
  have g: "dict_get data' ''relevance_score'' = JNull" using m assms(3) by (simp add: dict_get_def)
  have "load_record d (Json (JObj obj)) = Inr data'"
    using c s g by (simp add: load_record_def Let_def)
  then show ?thesis using m assms(3) by simp
qed

lemma deep_load_record_scored:
  assumes "\<not> isl (normalize_category (dict_get obj ''primary_category''))"
    and "\<not> isl (normalize_secondary obj)"
  shows "\<exists>r. deep_load_record d (Json (JObj obj)) = Inr r
             \<and> map_of r ''relevance_score''
                 = Some (JInt (case py_int (dict_get obj ''relevance_score'') of
                                 Inr n \<Rightarrow> n | Inl e \<Rightarrow> 0))"
proof -
  obtain c where c: "normalize_category (dict_get obj ''primary_category'') = Inr c"
    using assms(1) by (cases "normalize_category (dict_get obj ''primary_category'')") auto
  let ?data = "dict_set obj ''_folder'' (JStr d)"
  let ?d1 = "dict_set ?data ''primary_category'' (JStr c)"
  let ?d2 = "dict_set ?d1 ''relevance_score'' (JInt (safe_int (dict_get ?d1 ''relevance_score'')))"
  let ?d3 = "dict_set ?d2 ''year'' (JInt (safe_int (dict_get ?d2 ''year'')))"
  have "\<not> isl (normalize_secondary ?d3)"
    using assms(2) by (simp add: normalize_secondary_isl_set)
  then obtain r where r: "normalize_secondary ?d3 = Inr r"
    by (cases "normalize_secondary ?d3") auto
  have l: "deep_load_record d (Json (JObj obj)) = Inr r"
    using c r by (simp add: deep_load_record_def Let_def dict_get_primary_folder)
  have "map_of r ''relevance_score'' = map_of ?d3 ''relevance_score''"
    using r by (rule normalize_secondary_other) simp
  then have "map_of r ''relevance_score''
                 = Some (JInt (case py_int (dict_get obj ''relevance_score'') of
                                 Inr n \<Rightarrow> n | Inl e \<Rightarrow> 0))"
    by (simp add: map_of_dict_set dict_get_dict_set safe_int_def)
  then show ?thesis using l by blast
qed

text \<open>
  C4, as the code has it. Take a record whose categories normalise without raising.
  In summarize.py a score that is present, not null and not an infinite float is
  replaced by \<open>int\<close> of it, and by 0 when \<open>int\<close> raises ValueError or TypeError (a
  non-numeric score such as "four"); a missing score stays missing, and the relevance
  distribution counts it under "?". In deep\_analysis.py the score is always an
  integer afterwards: \<open>safe_int\<close> gives 0 for a non-numeric, null or missing score.
  The load returns a record in each of these cases. A null score in summarize.py,
  which the guard \<open>if rs is not None\<close> passes over, is outside this statement.
\<close>
theorem relevance_score_coercion:
  assumes "\<not> isl (normalize_category (dict_get obj ''primary_category''))"
    and "\<not> isl (normalize_secondary obj)"
  shows "(\<forall>v. map_of obj ''relevance_score'' = Some v \<and> v \<noteq> JNull \<and> v \<noteq> JInfinity \<longrightarrow>
            (\<exists>r. load_record d (Json (JObj obj)) = Inr r
                 \<and> map_of r ''relevance_score''
                     = Some (JInt (case py_int v of Inr n \<Rightarrow> n | Inl e \<Rightarrow> 0))))
       \<and> (map_of obj ''relevance_score'' = None \<longrightarrow>
            (\<exists>r. load_record d (Json (JObj obj)) = Inr r \<and> map_of r ''relevance_score'' = None))
       \<and> (\<exists>r. deep_load_record d (Json (JObj obj)) = Inr r
                 \<and> map_of r ''relevance_score''
                     = Some (JInt (case py_int (dict_get obj ''relevance_score'') of
                                     Inr n \<Rightarrow> n | Inl e \<Rightarrow> 0)))"
  using load_record_scored[OF assms] load_record_unscored[OF assms]
    deep_load_record_scored[OF assms]
  by blast

lemma py_int_four: "py_int (JStr ''four'') = Inl ValueError"
  by code_simp

lemma paper_core_steps:
  "\<not> isl (normalize_category (dict_get paper_core ''primary_category''))"
  "\<not> isl (normalize_secondary paper_core)"
  by code_simp+

lemma paper_no_score_steps:
  "\<not> isl (normalize_category (dict_get paper_no_score ''primary_category''))"
  "\<not> isl (normalize_secondary paper_no_score)"
  by code_simp+

theorem relevance_score_coercion_witness:
  "load_record ''P1'' (Json (JObj paper_core)) =
     Inr [(''title'', JStr ''Transfer learning for alloys''),
          (''year'', JInt 2021), (''primary_category'', JStr ''E''),
          (''secondary_categories'', JArr [JStr ''D'']),
          (''relevance_score'', JInt 0),
          (''core_technique'', JArr [JStr ''Fine-tuning'']),
          (''_folder'', JStr ''P1'')]
   \<and> (\<exists>r. load_record ''P1'' (Json (JObj paper_core)) = Inr r
          \<and> map_of r ''relevance_score'' = Some (JInt 0))
   \<and> (\<exists>r. deep_load_record ''P1'' (Json (JObj paper_core)) = Inr r
          \<and> map_of r ''relevance_score'' = Some (JInt 0))
   \<and> (\<exists>r. load_record ''P5'' (Json (JObj paper_no_score)) = Inr r
          \<and> map_of r ''relevance_score'' = None)
   \<and> (\<exists>r. deep_load_record ''P5'' (Json (JObj paper_no_score)) = Inr r
          \<and> map_of r ''relevance_score'' = Some (JInt 0))"
proof -
  note t = relevance_score_coercion[OF paper_core_steps, of "''P1''"]
  note t' = relevance_score_coercion[OF paper_no_score_steps, of "''P5''"]
  have a: "load_record ''P1'' (Json (JObj paper_core)) =
     Inr [(''title'', JStr ''Transfer learning for alloys''),
          (''year'', JInt 2021), (''primary_category'', JStr ''E''),
          (''secondary_categories'', JArr [JStr ''D'']),
          (''relevance_score'', JInt 0),
          (''core_technique'', JArr [JStr ''Fine-tuning'']),
          (''_folder'', JStr ''P1'')]"
    by code_simp
  have s: "map_of paper_core ''relevance_score'' = Some (JStr ''four'')"
    "dict_get paper_core ''relevance_score'' = JStr ''four''"
    "JStr ''four'' \<noteq> JNull" "JStr ''four'' \<noteq> JInfinity"
    by (simp_all add: paper_core_def dict_get_def)
  have n: "map_of paper_no_score ''relevance_score'' = None"
    "dict_get paper_no_score ''relevance_score'' = JNull"
    by (simp_all add: paper_no_score_def dict_get_def)
  have 1: "\<exists>r. load_record ''P1'' (Json (JObj paper_core)) = Inr r
          \<and> map_of r ''relevance_score''
              = Some (JInt (case py_int (JStr ''four'') of Inr n \<Rightarrow> n | Inl e \<Rightarrow> 0))"
    using t s by blast
  have 2: "\<exists>r. deep_load_record ''P1'' (Json (JObj paper_core)) = Inr r
          \<and> map_of r ''relevance_score''
              = Some (JInt (case py_int (JStr ''four'') of Inr n \<Rightarrow> n | Inl e \<Rightarrow> 0))"
    using t s(2) by simp
  have 3: "\<exists>r. load_record ''P5'' (Json (JObj paper_no_score)) = Inr r
          \<and> map_of r ''relevance_score'' = None"
    using t' n by blast
  have 4: "\<exists>r. deep_load_record ''P5'' (Json (JObj paper_no_score)) = Inr r
          \<and> map_of r ''relevance_score''
              = Some (JInt (case py_int JNull of Inr n \<Rightarrow> n | Inl e \<Rightarrow> 0))"
    using t' n(2) by simp
  show ?thesis
    using a 1 2 3 4 by (simp add: py_int_four del: py_int.simps) simp
qed

theorem missing_score_not_coerced_counterexample:
  "load_record ''P5'' (Json (JObj paper_no_score)) =
     Inr [(''title'', JStr ''Creep of steels''), (''primary_category'', JStr ''A''),
          (''_folder'', JStr ''P5'')]
   \<and> map_of [(''title'', JStr ''Creep of steels''), (''primary_category'', JStr ''A''),
             (''_folder'', JStr ''P5'')] ''relevance_score'' = None
   \<and> relevance_counts [[(''title'', JStr ''Creep of steels''), (''primary_category'', JStr ''A''),
                         (''_folder'', JStr ''P5'')]] = [(JStr ''?'', 1)]"
  by code_simp

text \<open>
  C8. For every category A to F, the total of its row of the cross-tabulation, which
  is \<open>sum(row.values())\<close> over every score key of the row, equals the category's count
  in the primary-category distribution of the same loaded records. (The five printed
  columns 1 to 5 can sum to less: \<open>displayed_columns_example\<close> below.)
\<close>
theorem crosstab_consistency:
  "cat \<in> set category_order \<Longrightarrow>
     row_total (cross_row (crosstab (fst (load_all w))) cat) =
     counter_get (primary_counts (fst (load_all w))) (JStr cat)"
  by (rule crosstab_row_total)

theorem crosstab_consistency_witness:
  "''E'' \<in> set category_order
   \<and> row_total (cross_row (crosstab (fst (load_all aggregated_corpus))) ''E'') =
     counter_get (primary_counts (fst (load_all aggregated_corpus))) (JStr ''E'')
   \<and> counter_get (primary_counts (fst (load_all aggregated_corpus))) (JStr ''E'') = 1"
proof -
  have a: "''E'' \<in> set category_order" by (simp add: category_order_def)
  have b: "counter_get (primary_counts (fst (load_all aggregated_corpus))) (JStr ''E'') = 1"
    by code_simp
  show ?thesis using a crosstab_consistency[OF a, of aggregated_corpus] b by blast
qed

lemma displayed_columns_example:
  "sum_list (map (\<lambda>s. counter_get (cross_row (crosstab (fst (load_all aggregated_corpus))) ''E'')
                      (JInt s)) score_columns) = 0
   \<and> row_total (cross_row (crosstab (fst (load_all aggregated_corpus))) ''E'') = 1"
  by code_simp

lemma load_record_unparseable: "load_record d Unparseable = Inl JSONDecodeError"
  by (simp add: load_record_def)

lemma deep_load_record_unparseable: "deep_load_record d Unparseable = Inl JSONDecodeError"
  by (simp add: deep_load_record_def)

lemma load_failure_listed:
  assumes "d \<in> set (entries w)" and "analysis_json (fs w d) = Some f"
    and "load_record d f = Inl e"
  shows "(d, e) \<in> set (snd (load_all w))"
    and "r \<in> set (fst (load_all w)) \<Longrightarrow> map_of r ''_folder'' \<noteq> Some (JStr d)"
proof -
  show "(d, e) \<in> set (snd (load_all w))"
    unfolding load_all_errors_iff using assms by blast
next
  assume "r \<in> set (fst (load_all w))"
  then obtain d' f' where *: "analysis_json (fs w d') = Some f'" "load_record d' f' = Inr r"
    unfolding load_all_results_iff by blast
  then have "map_of r ''_folder'' = Some (JStr d')" by (simp add: load_record_folder)
  moreover have "d' \<noteq> d" using * assms(2,3) by auto
  ultimately show "map_of r ''_folder'' \<noteq> Some (JStr d)" by simp
qed

lemma deep_load_failure_dropped:
  assumes "analysis_json (fs w d) = Some f" and "deep_load_record d f = Inl e"
    and "r \<in> set (deep_load_all w)"
  shows "map_of r ''_folder'' \<noteq> Some (JStr d)"
proof -
  obtain d' f' where *: "analysis_json (fs w d') = Some f'" "deep_load_record d' f' = Inr r"
    using assms(3) unfolding deep_load_all_iff by blast
  then have "map_of r ''_folder'' = Some (JStr d')" by (simp add: deep_load_record_folder)
  moreover have "d' \<noteq> d" using * assms(1,2) by auto
  ultimately show ?thesis by simp
qed

text \<open>
  C9, as the code has it. A result file that does not parse never ends the load, and
  no record of its folder is among the results of either loader, while every record
  that loads is. \<open>load_all\<close> of summarize.py lists the folder with the exception in
  its second result; \<open>load_all\<close> of deep\_analysis.py returns the records only and
  lists nothing (\<open>except Exception: pass\<close>).
\<close>
theorem unparseable_result_set_aside:
  assumes "d \<in> set (entries w)" and "analysis_json (fs w d) = Some Unparseable"
  shows "(d, JSONDecodeError) \<in> set (snd (load_all w))
       \<and> (\<forall>r \<in> set (fst (load_all w)). map_of r ''_folder'' \<noteq> Some (JStr d))
       \<and> (\<forall>r \<in> set (deep_load_all w). map_of r ''_folder'' \<noteq> Some (JStr d))
       \<and> (\<forall>d' f r. d' \<in> set (entries w) \<and> analysis_json (fs w d') = Some f
             \<and> load_record d' f = Inr r \<longrightarrow> r \<in> set (fst (load_all w)))
       \<and> (\<forall>d' f r. d' \<in> set (entries w) \<and> analysis_json (fs w d') = Some f
             \<and> deep_load_record d' f = Inr r \<longrightarrow> r \<in> set (deep_load_all w))"
proof -
  have 1: "(d, JSONDecodeError) \<in> set (snd (load_all w))"
    using load_failure_listed(1)[OF assms load_record_unparseable] .
  have 2: "\<forall>r \<in> set (fst (load_all w)). map_of r ''_folder'' \<noteq> Some (JStr d)"
    using load_failure_listed(2)[OF assms load_record_unparseable] by blast
  have 3: "\<forall>r \<in> set (deep_load_all w). map_of r ''_folder'' \<noteq> Some (JStr d)"
    using deep_load_failure_dropped[OF assms(2) deep_load_record_unparseable] by blast
  have 4: "\<forall>d' f r. d' \<in> set (entries w) \<and> analysis_json (fs w d') = Some f
             \<and> load_record d' f = Inr r \<longrightarrow> r \<in> set (fst (load_all w))"
    unfolding load_all_results_iff by blast
  have 5: "\<forall>d' f r. d' \<in> set (entries w) \<and> analysis_json (fs w d') = Some f
             \<and> deep_load_record d' f = Inr r \<longrightarrow> r \<in> set (deep_load_all w)"
    unfolding deep_load_all_iff by blast
  show ?thesis using 1 2 3 4 5 by blast
qed

theorem unparseable_result_set_aside_witness:
  "(''P3'', JSONDecodeError) \<in> set (snd (load_all aggregated_corpus))
   \<and> [(''title'', JStr ''A survey''), (''primary_category'', JStr ''B''),
       (''relevance_score'', JNull), (''_folder'', JStr ''P4'')]
       \<in> set (fst (load_all aggregated_corpus))
   \<and> [(''title'', JStr ''A survey''), (''primary_category'', JStr ''B''),
       (''relevance_score'', JInt 0), (''_folder'', JStr ''P4''), (''year'', JInt 0)]
       \<in> set (deep_load_all aggregated_corpus)"
proof -
  have a: "''P3'' \<in> set (entries aggregated_corpus)"
    by (simp add: aggregated_corpus_def corpus_def)
  have b: "analysis_json (fs aggregated_corpus ''P3'') = Some Unparseable"
    by (simp add: aggregated_corpus_def corpus_def analysed_def)
  have c: "''P4'' \<in> set (entries aggregated_corpus)"
    by (simp add: aggregated_corpus_def corpus_def)
  have d: "analysis_json (fs aggregated_corpus ''P4'') = Some (Json (JObj paper_unscored))"
    by (simp add: aggregated_corpus_def corpus_def analysed_def)
  have e: "load_record ''P4'' (Json (JObj paper_unscored)) =
     Inr [(''title'', JStr ''A survey''), (''primary_category'', JStr ''B''),
          (''relevance_score'', JNull), (''_folder'', JStr ''P4'')]"
    by code_simp
  have f: "deep_load_record ''P4'' (Json (JObj paper_unscored)) =
     Inr [(''title'', JStr ''A survey''), (''primary_category'', JStr ''B''),
       (''relevance_score'', JInt 0), (''_folder'', JStr ''P4''), (''year'', JInt 0)]"
    by code_simp
  show ?thesis using unparseable_result_set_aside[OF a b] c d e f by blast
qed

theorem deep_load_lists_no_failure_counterexample:
  "deep_load_all aggregated_corpus =
     deep_load_all (aggregated_corpus\<lparr>fs := (fs aggregated_corpus)(''P3'' := empty_folder)\<rparr>)
   \<and> length (deep_load_all aggregated_corpus) = 3
   \<and> snd (load_all aggregated_corpus) = [(''P3'', JSONDecodeError)]"
  by code_simp

section \<open>Properties of the batch orchestrator\<close>

lemma attempts_list: "[0..<MAX_RETRIES] = [0, 1, 2]"
  by (simp add: MAX_RETRIES_def upt_rec)

lemma attempt_once_frame:
  "calls (snd (attempt_once ev tx fname i w)) = calls w + 1"
  "fs (snd (attempt_once ev tx fname i w)) = fs w"
  "entries (snd (attempt_once ev tx fname i w)) = entries w"
  "extractions (snd (attempt_once ev tx fname i w)) = extractions w"
  by (auto simp: attempt_once_def Let_def retry_pause_def sleep_def
           split: http_result.splits option.splits sum.splits)

lemma attempt_once_429:
  assumes "service ev (calls w) fname tx = Response 429 b"
  shows "attempt_once ev tx fname i w =
           (Next_attempt,
            w\<lparr>calls := calls w + 1, slept := slept w @ [RETRY_DELAY * (of_nat i + 2)]\<rparr>)"
  using assms by (simp add: attempt_once_def Let_def sleep_def)

lemma attempt_once_success:
  assumes "service ev (calls w) fname tx = Response code (Some data)"
    and "code \<noteq> 429" and "\<not> (400 \<le> code \<and> code < 600)"
    and "parse_completion ev (calls w + 1) data = Inr result"
  shows "attempt_once ev tx fname i w = (Returned result, w\<lparr>calls := calls w + 1\<rparr>)"
  using assms by (simp add: attempt_once_def Let_def)

lemma attempt_once_retryable:
  assumes "retryable ev (calls w + 1) (service ev (calls w) fname tx)"
  shows "fst (attempt_once ev tx fname i w) = Next_attempt"
  using assms
  by (auto simp: attempt_once_def retryable_def Let_def
           split: http_result.splits option.splits sum.splits)

lemma call_llm_loop_frame:
  "calls (snd (call_llm_loop ev tx fname as w)) \<le> calls w + length as
   \<and> fs (snd (call_llm_loop ev tx fname as w)) = fs w
   \<and> entries (snd (call_llm_loop ev tx fname as w)) = entries w
   \<and> extractions (snd (call_llm_loop ev tx fname as w)) = extractions w"
proof (induction as arbitrary: w)
  case Nil
  then show ?case by simp
next
  case (Cons i as)
  obtain res w' where a: "attempt_once ev tx fname i w = (res, w')"
    by (cases "attempt_once ev tx fname i w")
  have f: "calls w' = calls w + 1" "fs w' = fs w" "entries w' = entries w"
    "extractions w' = extractions w"
    using attempt_once_frame[of ev tx fname i w] a by simp_all
  show ?case
  proof (cases res)
    case (Returned r)
    then show ?thesis using a f by simp
  next
    case (Raised e)
    then show ?thesis using a f by simp
  next
    case Next_attempt
    then show ?thesis using a f Cons.IH[of w'] by simp
  qed
qed

lemma call_llm_frame:
  "calls (snd (call_llm ev tx fname w)) \<le> calls w + MAX_RETRIES"
  "fs (snd (call_llm ev tx fname w)) = fs w"
  "entries (snd (call_llm ev tx fname w)) = entries w"
  "extractions (snd (call_llm ev tx fname w)) = extractions w"
  using call_llm_loop_frame[of ev tx fname "[0..<MAX_RETRIES]" w]
  by (simp_all add: call_llm_def)

lemma call_llm_loop_exhausted:
  assumes "\<forall>j < length as. retryable ev (calls w + j + 1) (service ev (calls w + j) fname tx)"
  shows "fst (call_llm_loop ev tx fname as w) = Inr (exhausted fname)
         \<and> calls (snd (call_llm_loop ev tx fname as w)) = calls w + length as"
  using assms
proof (induction as arbitrary: w)
  case Nil
  then show ?case by simp
next
  case (Cons i as)
  obtain res w' where a: "attempt_once ev tx fname i w = (res, w')"
    by (cases "attempt_once ev tx fname i w")
  have "retryable ev (calls w + 1) (service ev (calls w) fname tx)"
    using Cons.prems by force
  then have n: "res = Next_attempt"
    using attempt_once_retryable[of ev w fname tx i] a by simp
  have c: "calls w' = calls w + 1" using attempt_once_frame(1)[of ev tx fname i w] a by simp
  have "\<forall>j < length as. retryable ev (calls w' + j + 1) (service ev (calls w' + j) fname tx)"
  proof (intro allI impI)
    fix j assume "j < length as"
    then have "Suc j < length (i # as)" by simp
    then have "retryable ev (calls w + Suc j + 1) (service ev (calls w + Suc j) fname tx)"
      using Cons.prems by blast
    then show "retryable ev (calls w' + j + 1) (service ev (calls w' + j) fname tx)"
      using c by simp
  qed
  then show ?case using Cons.IH[of w'] a n c by simp
qed

lemma call_llm_rate_limited_twice:
  assumes "service ev (calls w) fname tx = Response 429 b0"
    and "service ev (calls w + 1) fname tx = Response 429 b1"
    and "service ev (calls w + 2) fname tx = Response code (Some data)"
    and "code \<noteq> 429" and "\<not> (400 \<le> code \<and> code < 600)"
    and "parse_completion ev (calls w + 3) data = Inr result"
  shows "call_llm ev tx fname w =
           (Inr result,
            w\<lparr>calls := calls w + 3,
              slept := slept w @ [RETRY_DELAY * (0 + 2), RETRY_DELAY * (1 + 2)]\<rparr>)"
proof -
  let ?w1 = "w\<lparr>calls := calls w + 1, slept := slept w @ [RETRY_DELAY * (of_nat 0 + 2)]\<rparr>"
  let ?w2 = "w\<lparr>calls := calls w + 2,
               slept := slept w @ [RETRY_DELAY * (of_nat 0 + 2), RETRY_DELAY * (of_nat 1 + 2)]\<rparr>"
  have 1: "attempt_once ev tx fname 0 w = (Next_attempt, ?w1)"
    using assms(1) by (rule attempt_once_429)
  have "service ev (calls ?w1) fname tx = Response 429 b1" using assms(2) by simp
  then have "attempt_once ev tx fname 1 ?w1 =
      (Next_attempt,
       ?w1\<lparr>calls := calls ?w1 + 1, slept := slept ?w1 @ [RETRY_DELAY * (of_nat 1 + 2)]\<rparr>)"
    by (rule attempt_once_429)
  then have 2: "attempt_once ev tx fname 1 ?w1 = (Next_attempt, ?w2)" by simp
  have s3: "service ev (calls ?w2) fname tx = Response code (Some data)"
    using assms(3) by simp
  have "calls ?w2 + 1 = calls w + 3" by simp
  then have p3: "parse_completion ev (calls ?w2 + 1) data = Inr result"
    using assms(6) by (simp only:)
  have "attempt_once ev tx fname 2 ?w2 = (Returned result, ?w2\<lparr>calls := calls ?w2 + 1\<rparr>)"
    using s3 assms(4,5) p3 by (rule attempt_once_success)
  then have 3: "attempt_once ev tx fname 2 ?w2 =
      (Returned result,
       w\<lparr>calls := calls w + 3,
         slept := slept w @ [RETRY_DELAY * (of_nat 0 + 2), RETRY_DELAY * (of_nat 1 + 2)]\<rparr>)"
    by simp
  have "call_llm_loop ev tx fname [0, 1, 2] w =
      (Inr result,
       w\<lparr>calls := calls w + 3,
         slept := slept w @ [RETRY_DELAY * (of_nat 0 + 2), RETRY_DELAY * (of_nat 1 + 2)]\<rparr>)"
    by (simp only: call_llm_loop.simps 1 2 3 prod.case attempt_result.case)
  then show ?thesis
    unfolding call_llm_def attempts_list by simp
qed

text \<open>
  C6. When the service answers the first two requests of \<open>call_llm\<close> with 429 and the
  third with a completion that parses, \<open>call_llm\<close> returns that result on the third
  attempt, having slept \<open>RETRY_DELAY * (0 + 2)\<close> and then \<open>RETRY_DELAY * (1 + 2)\<close> and
  nothing else: a rate-limited attempt with index \<open>i\<close> sleeps \<open>RETRY_DELAY * (i + 2)\<close>.
  All failure classes draw on one budget: \<open>call_llm\<close> never sends more than
  \<open>MAX_RETRIES\<close> requests, and when each of the \<open>MAX_RETRIES\<close> answers is a failure
  of any of the three classes, it returns the terminal error record after exactly
  that many requests.
\<close>
theorem retry_backoff_schedule:
  "(service ev (calls w) fname tx = Response 429 b0
      \<and> service ev (calls w + 1) fname tx = Response 429 b1
      \<and> service ev (calls w + 2) fname tx = Response code (Some data)
      \<and> code \<noteq> 429 \<and> \<not> (400 \<le> code \<and> code < 600)
      \<and> parse_completion ev (calls w + 3) data = Inr result
    \<longrightarrow> call_llm ev tx fname w =
          (Inr result,
           w\<lparr>calls := calls w + 3,
             slept := slept w @ [RETRY_DELAY * (0 + 2), RETRY_DELAY * (1 + 2)]\<rparr>)
        \<and> sum_list (slept (snd (call_llm ev tx fname w))) =
            sum_list (slept w) + (RETRY_DELAY * (0 + 2) + RETRY_DELAY * (1 + 2)))
   \<and> (service ev (calls w) fname tx = Response 429 b
    \<longrightarrow> attempt_once ev tx fname i w =
          (Next_attempt,
           w\<lparr>calls := calls w + 1, slept := slept w @ [RETRY_DELAY * (of_nat i + 2)]\<rparr>))
   \<and> calls (snd (call_llm ev tx fname w)) \<le> calls w + MAX_RETRIES
   \<and> ((\<forall>j < MAX_RETRIES.
          retryable ev (calls w + j + 1) (service ev (calls w + j) fname tx))
    \<longrightarrow> fst (call_llm ev tx fname w) = Inr (exhausted fname)
        \<and> calls (snd (call_llm ev tx fname w)) = calls w + MAX_RETRIES)"
proof (intro conjI impI)
  assume h: "service ev (calls w) fname tx = Response 429 b0
      \<and> service ev (calls w + 1) fname tx = Response 429 b1
      \<and> service ev (calls w + 2) fname tx = Response code (Some data)
      \<and> code \<noteq> 429 \<and> \<not> (400 \<le> code \<and> code < 600)
      \<and> parse_completion ev (calls w + 3) data = Inr result"
  then have c: "call_llm ev tx fname w =
          (Inr result,
           w\<lparr>calls := calls w + 3,
             slept := slept w @ [RETRY_DELAY * (0 + 2), RETRY_DELAY * (1 + 2)]\<rparr>)"
    using call_llm_rate_limited_twice[of ev w fname tx b0 b1 code data result] by blast
  show "call_llm ev tx fname w =
          (Inr result,
           w\<lparr>calls := calls w + 3,
             slept := slept w @ [RETRY_DELAY * (0 + 2), RETRY_DELAY * (1 + 2)]\<rparr>)"
    by (rule c)
  show "sum_list (slept (snd (call_llm ev tx fname w))) =
            sum_list (slept w) + (RETRY_DELAY * (0 + 2) + RETRY_DELAY * (1 + 2))"
    unfolding c by simp
next
  assume "service ev (calls w) fname tx = Response 429 b"
  then show "attempt_once ev tx fname i w =
          (Next_attempt,
           w\<lparr>calls := calls w + 1, slept := slept w @ [RETRY_DELAY * (of_nat i + 2)]\<rparr>)"
    by (rule attempt_once_429)
next
  show "calls (snd (call_llm ev tx fname w)) \<le> calls w + MAX_RETRIES"
    by (rule call_llm_frame(1))
next
  assume a: "\<forall>j < MAX_RETRIES.
          retryable ev (calls w + j + 1) (service ev (calls w + j) fname tx)"
  have l: "length [0..<MAX_RETRIES] = MAX_RETRIES" by simp
  have e: "fst (call_llm_loop ev tx fname [0..<MAX_RETRIES] w) = Inr (exhausted fname)
         \<and> calls (snd (call_llm_loop ev tx fname [0..<MAX_RETRIES] w))
             = calls w + length [0..<MAX_RETRIES]"
    by (rule call_llm_loop_exhausted) (use a in simp)
  show "fst (call_llm ev tx fname w) = Inr (exhausted fname)"
    using e by (simp add: call_llm_def)
  show "calls (snd (call_llm ev tx fname w)) = calls w + MAX_RETRIES"
    using e by (simp add: call_llm_def)
qed

lemma example_parse:
  "parse_completion (example_env svc) t (completion (fenced doc_ok)) =
     Inr [(''title'', JStr ''T''),
          (''_meta'',
           JObj [(''input_tokens'', JInt 1200), (''output_tokens'', JInt 300),
                 (''model'', JStr ''google/gemini-2.5-flash''),
                 (''analyzed_at'', JStr ''2024-05-01 12:00:00'')])]"
proof -
  have "strip_fence (fenced doc_ok) = doc_ok" by code_simp
  then show ?thesis
    by (simp add: parse_completion_def completion_def example_env_def example_loads_def MODEL_def
          dict_get_default_def)
qed

lemma mixed_failures_retryable:
  assumes "calls w = 0"
  shows "\<forall>j < MAX_RETRIES.
          retryable (example_env service_mixed_failures) (calls w + j + 1)
            (service (example_env service_mixed_failures) (calls w + j) fname tx)"
proof (intro allI impI)
  fix j assume "j < MAX_RETRIES"
  then have "j = 0 \<or> j = 1 \<or> j = 2" by (auto simp: MAX_RETRIES_def)
  moreover have "strip_fence ''not json'' = ''not json''" by code_simp
  ultimately show "retryable (example_env service_mixed_failures) (calls w + j + 1)
            (service (example_env service_mixed_failures) (calls w + j) fname tx)"
    by (auto simp: assms retryable_def example_env_def service_mixed_failures_def
          parse_completion_def completion_def example_loads_def caught_def
          doc_ok_def doc_err_def quoted_def)
qed

theorem retry_backoff_schedule_witness:
  "call_llm (example_env service_rate_limited_twice) ''full text'' ''valid.pdf'' five_items =
     (Inr [(''title'', JStr ''T''),
           (''_meta'',
            JObj [(''input_tokens'', JInt 1200), (''output_tokens'', JInt 300),
                  (''model'', JStr ''google/gemini-2.5-flash''),
                  (''analyzed_at'', JStr ''2024-05-01 12:00:00'')])],
      five_items\<lparr>calls := 3, slept := [10, 15]\<rparr>)
   \<and> sum_list (slept (snd (call_llm (example_env service_rate_limited_twice)
                                ''full text'' ''valid.pdf'' five_items))) = 25
   \<and> fst (call_llm (example_env service_mixed_failures) ''full text'' ''valid.pdf'' five_items)
       = Inr [(''error'', JStr ''Failed after 3 attempts''), (''filename'', JStr ''valid.pdf'')]
   \<and> calls (snd (call_llm (example_env service_mixed_failures)
                    ''full text'' ''valid.pdf'' five_items)) = 3"
proof -
  let ?ev = "example_env service_rate_limited_twice"
  let ?ev' = "example_env service_mixed_failures"
  let ?r = "[(''title'', JStr ''T''),
           (''_meta'',
            JObj [(''input_tokens'', JInt 1200), (''output_tokens'', JInt 300),
                  (''model'', JStr ''google/gemini-2.5-flash''),
                  (''analyzed_at'', JStr ''2024-05-01 12:00:00'')])]"
  have c0: "calls five_items = 0" "slept five_items = []"
    by (simp_all add: five_items_def corpus_def)
  have h: "service ?ev (calls five_items) ''valid.pdf'' ''full text'' = Response 429 None
      \<and> service ?ev (calls five_items + 1) ''valid.pdf'' ''full text'' = Response 429 None
      \<and> service ?ev (calls five_items + 2) ''valid.pdf'' ''full text''
          = Response 200 (Some (completion (fenced doc_ok)))
      \<and> (200::nat) \<noteq> 429 \<and> \<not> (400 \<le> (200::nat) \<and> (200::nat) < 600)
      \<and> parse_completion ?ev (calls five_items + 3) (completion (fenced doc_ok)) = Inr ?r"
    by (simp add: c0 example_env_def service_rate_limited_twice_def example_parse[unfolded example_env_def])
  have g: "\<forall>j < MAX_RETRIES.
          retryable ?ev' (calls five_items + j + 1)
            (service ?ev' (calls five_items + j) ''valid.pdf'' ''full text'')"
    using c0(1) by (rule mixed_failures_retryable)
  note t = retry_backoff_schedule[where ev = ?ev and w = five_items and fname = "''valid.pdf''"
      and tx = "''full text''" and ?b0.0 = None and ?b1.0 = None and code = 200
      and data = "completion (fenced doc_ok)" and result = ?r]
  note t' = retry_backoff_schedule[where ev = ?ev' and w = five_items and fname = "''valid.pdf''"
      and tx = "''full text''"]
  have 1: "call_llm ?ev ''full text'' ''valid.pdf'' five_items =
          (Inr ?r,
           five_items\<lparr>calls := calls five_items + 3,
             slept := slept five_items @ [RETRY_DELAY * (0 + 2), RETRY_DELAY * (1 + 2)]\<rparr>)"
    using t h by blast
  have 2: "sum_list (slept (snd (call_llm ?ev ''full text'' ''valid.pdf'' five_items))) =
            sum_list (slept five_items) + (RETRY_DELAY * (0 + 2) + RETRY_DELAY * (1 + 2))"
    using t h by blast
  have 3: "fst (call_llm ?ev' ''full text'' ''valid.pdf'' five_items) = Inr (exhausted ''valid.pdf'')
        \<and> calls (snd (call_llm ?ev' ''full text'' ''valid.pdf'' five_items))
            = calls five_items + MAX_RETRIES"
    using t' g by blast
  have e: "exhausted ''valid.pdf'' =
       [(''error'', JStr ''Failed after 3 attempts''), (''filename'', JStr ''valid.pdf'')]"
    by code_simp
  show ?thesis
    using 1 2 3 by (simp add: c0 RETRY_DELAY_def MAX_RETRIES_def e)
qed

text \<open>
  C5. For a folder without a result file whose first PDF gives fewer than 100
  characters, \<open>process_one\<close> writes the error record (reason, file name of the PDF,
  number of characters extracted), reports \<open>too_short\<close>, and sends no request to the
  service (it does not sleep either).
\<close>
theorem short_text_short_circuit:
  assumes "analysis_json (fs w d) = None"
    and "pdfs (fs w d) = (fname, doc) # others"
    and "length (extract_text_from_pdf doc) < 100"
  shows "process_one ev d w =
           (Inr \<lparr>status = Too_short, folder = d,
                 chars = Some (length (extract_text_from_pdf doc)), filename = None\<rparr>,
            w\<lparr>fs := (fs w)(d := (fs w d)\<lparr>analysis_json := Some (Json (JObj
                   [(''error'', JStr ''Extracted text too short - likely a scanned PDF''),
                    (''filename'', JStr fname),
                    (''extracted_chars'', JInt (int (length (extract_text_from_pdf doc))))]))\<rparr>),
              extractions := extractions w + 1\<rparr>)
         \<and> calls (snd (process_one ev d w)) = calls w
         \<and> slept (snd (process_one ev d w)) = slept w"
  using assms
  by (simp add: process_one_def Let_def save_result_def too_short_record_def)

theorem short_text_short_circuit_witness:
  "process_one (example_env service_ok) ''S1'' five_items =
     (Inr \<lparr>status = Too_short, folder = ''S1'', chars = Some 40, filename = None\<rparr>,
      five_items\<lparr>fs := (fs five_items)(''S1'' := (fs five_items ''S1'')\<lparr>analysis_json :=
          Some (Json (JObj
                   [(''error'', JStr ''Extracted text too short - likely a scanned PDF''),
                    (''filename'', JStr ''scan.pdf''),
                    (''extracted_chars'', JInt 40)]))\<rparr>),
        extractions := 1\<rparr>)
   \<and> calls (snd (process_one (example_env service_ok) ''S1'' five_items)) = 0"
proof -
  have a: "analysis_json (fs five_items ''S1'') = None"
    by (simp add: five_items_def corpus_def)
  have b: "pdfs (fs five_items ''S1'') = (''scan.pdf'', Pages [replicate 40 (CHR ''y'')]) # []"
    by (simp add: five_items_def corpus_def)
  have l: "extract_text_from_pdf (Pages [replicate 40 (CHR ''y'')]) = replicate 40 (CHR ''y'')"
    by code_simp
  have c: "length (extract_text_from_pdf (Pages [replicate 40 (CHR ''y'')])) < 100"
    unfolding l by simp
  have e: "calls five_items = 0" "extractions five_items = 0"
    by (simp_all add: five_items_def corpus_def)
  show ?thesis
    using short_text_short_circuit[OF a b c, of "example_env service_ok", unfolded l]
    by (simp add: e)
qed

lemma exhausted_has_error: "has_key ''error'' (exhausted fname)"
  by (simp add: exhausted_def has_key_def)

text \<open>What \<open>call_llm\<close> returns from a response is the parsed payload with \<open>_meta\<close> set.\<close>

lemma parse_completion_payload:
  assumes "parse_completion ev t data = Inr r"
  shows "\<exists>c payload meta. json_loads ev (strip_fence c) = Some (JObj payload)
           \<and> r = dict_set payload ''_meta'' meta
           \<and> has_key ''error'' r = has_key ''error'' payload"
  using assms
  apply (auto simp: parse_completion_def has_key_dict_set
           split: sum.splits json.splits option.splits)
  by blast

lemma process_one_llm_step:
  assumes "analysis_json (fs w d) = None"
    and "pdfs (fs w d) = (fname, doc) # others"
    and "\<not> length (extract_text_from_pdf doc) < 100"
  shows "process_one ev d w =
     (case call_llm ev (extract_text_from_pdf doc) fname (w\<lparr>extractions := extractions w + 1\<rparr>) of
        (Inl e, w2) \<Rightarrow> (Inl e, w2)
      | (Inr result, w2) \<Rightarrow>
          (Inr \<lparr>status = (if has_key ''error'' result then Error else Success),
                 folder = d, chars = None, filename = Some fname\<rparr>,
           save_result d result w2))"
  using assms by (simp add: process_one_def Let_def)

lemma save_result_file: "analysis_json (fs (save_result d result w) d) = Some (Json (JObj result))"
  by (simp add: save_result_def)

lemma valid_text:
  "extract_text_from_pdf (Pages [replicate 100 (CHR ''x''), replicate 50 (CHR ''z'')])
     = replicate 100 (CHR ''x'') @ replicate 50 (CHR ''z'')"
  by code_simp

lemma valid_text_long:
  "\<not> length (extract_text_from_pdf (Pages [replicate 100 (CHR ''x''), replicate 50 (CHR ''z'')])) < 100"
  unfolding valid_text by simp

lemma five_items_V1:
  "analysis_json (fs five_items ''V1'') = None"
  "pdfs (fs five_items ''V1'') =
     (''valid.pdf'', Pages [replicate 100 (CHR ''x''), replicate 50 (CHR ''z'')]) # []"
  "calls five_items = 0"
  by (simp_all add: five_items_def corpus_def)

lemma example_parse_err:
  "parse_completion (example_env svc) t (completion doc_err) =
     Inr [(''error'', JStr ''no abstract''),
          (''_meta'',
           JObj [(''input_tokens'', JInt 1200), (''output_tokens'', JInt 300),
                 (''model'', JStr ''google/gemini-2.5-flash''),
                 (''analyzed_at'', JStr ''2024-05-01 12:00:00'')])]"
proof -
  have "strip_fence doc_err = doc_err" by code_simp
  moreover have "doc_err \<noteq> doc_ok" by code_simp
  ultimately show ?thesis
    by (simp add: parse_completion_def completion_def example_env_def example_loads_def MODEL_def
          dict_get_default_def)
qed

text \<open>
  C10. Take a folder that reaches the call of \<open>call_llm\<close>: no result file, a PDF, at
  least 100 characters of text. Whatever record \<open>call_llm\<close> returns, \<open>process_one\<close>
  writes exactly that record as the folder's result file and returns a report for the
  folder and the PDF's file name whose status is \<open>error\<close> if the record has a top-level
  \<open>error\<close> key and \<open>success\<close> if it has none; nothing else of the state changes. Only
  when \<open>call_llm\<close> raises does \<open>process_one\<close> raise, and then it writes nothing. Hence
  a retry budget exhausted by retryable failures is reported as an error with the
  terminal record on file, and a completion that parses is written as parsed (the
  payload with \<open>_meta\<close>) and reported as an error if the payload carries an \<open>error\<close>
  key, as a success if it does not.
\<close>
theorem status_follows_error_key:
  assumes "analysis_json (fs w d) = None"
    and "pdfs (fs w d) = (fname, doc) # others"
    and "\<not> length (extract_text_from_pdf doc) < 100"
  shows "(\<forall>result w2.
            call_llm ev (extract_text_from_pdf doc) fname (w\<lparr>extractions := extractions w + 1\<rparr>)
              = (Inr result, w2) \<and> has_key ''error'' result \<longrightarrow>
            process_one ev d w
              = (Inr \<lparr>status = Error, folder = d, chars = None, filename = Some fname\<rparr>,
                 w2\<lparr>fs := (fs w2)(d := (fs w2 d)\<lparr>analysis_json := Some (Json (JObj result))\<rparr>)\<rparr>))
       \<and> (\<forall>result w2.
            call_llm ev (extract_text_from_pdf doc) fname (w\<lparr>extractions := extractions w + 1\<rparr>)
              = (Inr result, w2) \<and> \<not> has_key ''error'' result \<longrightarrow>
            process_one ev d w
              = (Inr \<lparr>status = Success, folder = d, chars = None, filename = Some fname\<rparr>,
                 w2\<lparr>fs := (fs w2)(d := (fs w2 d)\<lparr>analysis_json := Some (Json (JObj result))\<rparr>)\<rparr>))
       \<and> (\<forall>e w2.
            call_llm ev (extract_text_from_pdf doc) fname (w\<lparr>extractions := extractions w + 1\<rparr>)
              = (Inl e, w2) \<longrightarrow>
            process_one ev d w = (Inl e, w2))
       \<and> (\<forall>rep w'. process_one ev d w = (Inr rep, w') \<longrightarrow>
            (\<exists>result. fst (call_llm ev (extract_text_from_pdf doc) fname
                              (w\<lparr>extractions := extractions w + 1\<rparr>)) = Inr result
               \<and> analysis_json (fs w' d) = Some (Json (JObj result))
               \<and> (status rep = Error \<longleftrightarrow> has_key ''error'' result)
               \<and> (status rep = Success \<longleftrightarrow> \<not> has_key ''error'' result)))
       \<and> ((\<forall>j < MAX_RETRIES.
              retryable ev (calls w + j + 1)
                (service ev (calls w + j) fname (extract_text_from_pdf doc))) \<longrightarrow>
            fst (process_one ev d w)
              = Inr \<lparr>status = Error, folder = d, chars = None, filename = Some fname\<rparr>
            \<and> analysis_json (fs (snd (process_one ev d w)) d)
                = Some (Json (JObj (exhausted fname))))
       \<and> (\<forall>code data r.
            service ev (calls w) fname (extract_text_from_pdf doc) = Response code (Some data)
            \<and> code \<noteq> 429 \<and> \<not> (400 \<le> code \<and> code < 600)
            \<and> parse_completion ev (calls w + 1) data = Inr r \<longrightarrow>
            process_one ev d w
              = (Inr \<lparr>status = (if has_key ''error'' r then Error else Success),
                      folder = d, chars = None, filename = Some fname\<rparr>,
                 w\<lparr>extractions := extractions w + 1, calls := calls w + 1,
                    fs := (fs w)(d := (fs w d)\<lparr>analysis_json := Some (Json (JObj r))\<rparr>)\<rparr>))"
proof -
  let ?tx = "extract_text_from_pdf doc"
  let ?w1 = "w\<lparr>extractions := extractions w + 1\<rparr>"
  note p = process_one_llm_step[OF assms, of ev]
  have 1: "\<forall>result w2. call_llm ev ?tx fname ?w1 = (Inr result, w2) \<and> has_key ''error'' result \<longrightarrow>
            process_one ev d w
              = (Inr \<lparr>status = Error, folder = d, chars = None, filename = Some fname\<rparr>,
                 w2\<lparr>fs := (fs w2)(d := (fs w2 d)\<lparr>analysis_json := Some (Json (JObj result))\<rparr>)\<rparr>)"
    unfolding p by (simp add: save_result_def)
  have 2: "\<forall>result w2. call_llm ev ?tx fname ?w1 = (Inr result, w2) \<and> \<not> has_key ''error'' result \<longrightarrow>
            process_one ev d w
              = (Inr \<lparr>status = Success, folder = d, chars = None, filename = Some fname\<rparr>,
                 w2\<lparr>fs := (fs w2)(d := (fs w2 d)\<lparr>analysis_json := Some (Json (JObj result))\<rparr>)\<rparr>)"
    unfolding p by (simp add: save_result_def)
  have 3: "\<forall>e w2. call_llm ev ?tx fname ?w1 = (Inl e, w2) \<longrightarrow> process_one ev d w = (Inl e, w2)"
    unfolding p by simp
  have 4: "\<forall>rep w'. process_one ev d w = (Inr rep, w') \<longrightarrow>
            (\<exists>result. fst (call_llm ev ?tx fname ?w1) = Inr result
               \<and> analysis_json (fs w' d) = Some (Json (JObj result))
               \<and> (status rep = Error \<longleftrightarrow> has_key ''error'' result)
               \<and> (status rep = Success \<longleftrightarrow> \<not> has_key ''error'' result))"
  proof (intro allI impI)
    fix rep w' assume a: "process_one ev d w = (Inr rep, w')"
    obtain res w2 where c: "call_llm ev ?tx fname ?w1 = (res, w2)"
      by (cases "call_llm ev ?tx fname ?w1")
    show "\<exists>result. fst (call_llm ev ?tx fname ?w1) = Inr result
               \<and> analysis_json (fs w' d) = Some (Json (JObj result))
               \<and> (status rep = Error \<longleftrightarrow> has_key ''error'' result)
               \<and> (status rep = Success \<longleftrightarrow> \<not> has_key ''error'' result)"
    proof (cases res)
      case (Inl e)
      then show ?thesis using a p c by simp
    next
      case (Inr result)
      then have "rep = \<lparr>status = (if has_key ''error'' result then Error else Success),
                 folder = d, chars = None, filename = Some fname\<rparr>"
        and "w' = save_result d result w2"
        using a p c by simp_all
      then show ?thesis using c Inr by (auto simp: save_result_file)
    qed
  qed
  have 5: "(\<forall>j < MAX_RETRIES.
              retryable ev (calls w + j + 1) (service ev (calls w + j) fname ?tx)) \<longrightarrow>
            fst (process_one ev d w)
              = Inr \<lparr>status = Error, folder = d, chars = None, filename = Some fname\<rparr>
            \<and> analysis_json (fs (snd (process_one ev d w)) d)
                = Some (Json (JObj (exhausted fname)))"
  proof
    assume r: "\<forall>j < MAX_RETRIES.
              retryable ev (calls w + j + 1) (service ev (calls w + j) fname ?tx)"
    then have "\<forall>j < length [0..<MAX_RETRIES].
              retryable ev (calls ?w1 + j + 1) (service ev (calls ?w1 + j) fname ?tx)"
      by simp
    then have "fst (call_llm ev ?tx fname ?w1) = Inr (exhausted fname)"
      unfolding call_llm_def using call_llm_loop_exhausted by blast
    then obtain w2 where c: "call_llm ev ?tx fname ?w1 = (Inr (exhausted fname), w2)"
      by (cases "call_llm ev ?tx fname ?w1") auto
    show "fst (process_one ev d w)
              = Inr \<lparr>status = Error, folder = d, chars = None, filename = Some fname\<rparr>
            \<and> analysis_json (fs (snd (process_one ev d w)) d)
                = Some (Json (JObj (exhausted fname)))"
      unfolding p c by (simp add: exhausted_has_error save_result_file)
  qed
  have 6: "\<forall>code data r.
            service ev (calls w) fname ?tx = Response code (Some data)
            \<and> code \<noteq> 429 \<and> \<not> (400 \<le> code \<and> code < 600)
            \<and> parse_completion ev (calls w + 1) data = Inr r \<longrightarrow>
            process_one ev d w
              = (Inr \<lparr>status = (if has_key ''error'' r then Error else Success),
                      folder = d, chars = None, filename = Some fname\<rparr>,
                 w\<lparr>extractions := extractions w + 1, calls := calls w + 1,
                    fs := (fs w)(d := (fs w d)\<lparr>analysis_json := Some (Json (JObj r))\<rparr>)\<rparr>)"
  proof (intro allI impI)
    fix code data r
    assume h: "service ev (calls w) fname ?tx = Response code (Some data)
            \<and> code \<noteq> 429 \<and> \<not> (400 \<le> code \<and> code < 600)
            \<and> parse_completion ev (calls w + 1) data = Inr r"
    have "attempt_once ev ?tx fname 0 ?w1 = (Returned r, ?w1\<lparr>calls := calls ?w1 + 1\<rparr>)"
      by (rule attempt_once_success[where code = code and data = data]) (use h in simp_all)
    then have c: "call_llm ev ?tx fname ?w1 = (Inr r, ?w1\<lparr>calls := calls ?w1 + 1\<rparr>)"
      unfolding call_llm_def attempts_list by (simp only: call_llm_loop.simps prod.case attempt_result.case)
    show "process_one ev d w
              = (Inr \<lparr>status = (if has_key ''error'' r then Error else Success),
                      folder = d, chars = None, filename = Some fname\<rparr>,
                 w\<lparr>extractions := extractions w + 1, calls := calls w + 1,
                    fs := (fs w)(d := (fs w d)\<lparr>analysis_json := Some (Json (JObj r))\<rparr>)\<rparr>)"
      unfolding p c by (simp add: save_result_def)
  qed
  show ?thesis using 1 2 3 4 5 6 by blast
qed

theorem status_follows_error_key_witness:
  "process_one (example_env service_ok) ''V1'' five_items
     = (Inr \<lparr>status = Success, folder = ''V1'', chars = None, filename = Some ''valid.pdf''\<rparr>,
        five_items\<lparr>extractions := extractions five_items + 1, calls := calls five_items + 1,
          fs := (fs five_items)(''V1'' := (fs five_items ''V1'')\<lparr>analysis_json :=
            Some (Json (JObj [(''title'', JStr ''T''),
              (''_meta'',
               JObj [(''input_tokens'', JInt 1200), (''output_tokens'', JInt 300),
                     (''model'', JStr ''google/gemini-2.5-flash''),
                     (''analyzed_at'', JStr ''2024-05-01 12:00:00'')])]))\<rparr>)\<rparr>)
   \<and> process_one (example_env service_error_payload) ''V1'' five_items
     = (Inr \<lparr>status = Error, folder = ''V1'', chars = None, filename = Some ''valid.pdf''\<rparr>,
        five_items\<lparr>extractions := extractions five_items + 1, calls := calls five_items + 1,
          fs := (fs five_items)(''V1'' := (fs five_items ''V1'')\<lparr>analysis_json :=
            Some (Json (JObj [(''error'', JStr ''no abstract''),
              (''_meta'',
               JObj [(''input_tokens'', JInt 1200), (''output_tokens'', JInt 300),
                     (''model'', JStr ''google/gemini-2.5-flash''),
                     (''analyzed_at'', JStr ''2024-05-01 12:00:00'')])]))\<rparr>)\<rparr>)
   \<and> fst (process_one (example_env service_mixed_failures) ''V1'' five_items)
     = Inr \<lparr>status = Error, folder = ''V1'', chars = None, filename = Some ''valid.pdf''\<rparr>
   \<and> analysis_json (fs (snd (process_one (example_env service_mixed_failures) ''V1'' five_items)) ''V1'')
     = Some (Json (JObj (exhausted ''valid.pdf'')))"
proof -
  let ?ok = "example_env service_ok"
  let ?ev = "example_env service_error_payload"
  let ?ev' = "example_env service_mixed_failures"
  let ?doc = "Pages [replicate 100 (CHR ''x''), replicate 50 (CHR ''z'')]"
  let ?s = "[(''title'', JStr ''T''),
          (''_meta'',
           JObj [(''input_tokens'', JInt 1200), (''output_tokens'', JInt 300),
                 (''model'', JStr ''google/gemini-2.5-flash''),
                 (''analyzed_at'', JStr ''2024-05-01 12:00:00'')])]"
  let ?r = "[(''error'', JStr ''no abstract''),
          (''_meta'',
           JObj [(''input_tokens'', JInt 1200), (''output_tokens'', JInt 300),
                 (''model'', JStr ''google/gemini-2.5-flash''),
                 (''analyzed_at'', JStr ''2024-05-01 12:00:00'')])]"
  note s = status_follows_error_key[OF five_items_V1(1,2) valid_text_long, of ?ok]
  note t = status_follows_error_key[OF five_items_V1(1,2) valid_text_long, of ?ev]
  note t' = status_follows_error_key[OF five_items_V1(1,2) valid_text_long, of ?ev']
  have g: "service ?ok (calls five_items) ''valid.pdf'' (extract_text_from_pdf ?doc)
             = Response 200 (Some (completion (fenced doc_ok)))
            \<and> (200::nat) \<noteq> 429 \<and> \<not> (400 \<le> (200::nat) \<and> (200::nat) < 600)
            \<and> parse_completion ?ok (calls five_items + 1) (completion (fenced doc_ok)) = Inr ?s"
    by (simp add: example_parse)
       (simp add: example_env_def service_ok_def)
  have ns: "\<not> has_key ''error'' ?s" by (simp add: has_key_def)
  have 0: "process_one ?ok ''V1'' five_items
     = (Inr \<lparr>status = (if has_key ''error'' ?s then Error else Success),
             folder = ''V1'', chars = None, filename = Some ''valid.pdf''\<rparr>,
        five_items\<lparr>extractions := extractions five_items + 1, calls := calls five_items + 1,
          fs := (fs five_items)(''V1'' := (fs five_items ''V1'')\<lparr>analysis_json :=
            Some (Json (JObj ?s))\<rparr>)\<rparr>)"
    using s g by blast
  have h: "service ?ev (calls five_items) ''valid.pdf'' (extract_text_from_pdf ?doc)
             = Response 200 (Some (completion doc_err))
            \<and> (200::nat) \<noteq> 429 \<and> \<not> (400 \<le> (200::nat) \<and> (200::nat) < 600)
            \<and> parse_completion ?ev (calls five_items + 1) (completion doc_err) = Inr ?r"
    by (simp add: example_parse_err)
       (simp add: example_env_def service_error_payload_def)
  have hr: "has_key ''error'' ?r" by (simp add: has_key_def)
  have 1: "process_one ?ev ''V1'' five_items
     = (Inr \<lparr>status = (if has_key ''error'' ?r then Error else Success),
             folder = ''V1'', chars = None, filename = Some ''valid.pdf''\<rparr>,
        five_items\<lparr>extractions := extractions five_items + 1, calls := calls five_items + 1,
          fs := (fs five_items)(''V1'' := (fs five_items ''V1'')\<lparr>analysis_json :=
            Some (Json (JObj ?r))\<rparr>)\<rparr>)"
    using t h by blast
  have "\<forall>j < MAX_RETRIES.
      retryable ?ev' (calls five_items + j + 1)
        (service ?ev' (calls five_items + j) ''valid.pdf'' (extract_text_from_pdf ?doc))"
    using mixed_failures_retryable[OF five_items_V1(3)] by blast
  then have 2: "fst (process_one ?ev' ''V1'' five_items)
              = Inr \<lparr>status = Error, folder = ''V1'', chars = None, filename = Some ''valid.pdf''\<rparr>
            \<and> analysis_json (fs (snd (process_one ?ev' ''V1'' five_items)) ''V1'')
                = Some (Json (JObj (exhausted ''valid.pdf'')))"
    using t' by blast
  show ?thesis using 0 1 2 ns hr by simp
qed

section \<open>Idempotence of the orchestrator\<close>



lemma process_one_skip:
  assumes "analysis_json (fs w d) \<noteq> None"
  shows "process_one ev d w =
           (Inr \<lparr>status = Skipped, folder = d, chars = None, filename = None\<rparr>, w)"
  using assms by (simp add: process_one_def)

lemma save_result_frame:
  "fs (save_result d result w) d' =
     (if d' = d then (fs w d)\<lparr>analysis_json := Some (Json (JObj result))\<rparr> else fs w d')"
  "entries (save_result d result w) = entries w"
  "calls (save_result d result w) = calls w"
  by (simp_all add: save_result_def)

lemma process_one_pending:
  assumes "has_pdf w d" and "\<not> is_done w d" and "process_one ev d w = (Inr rep, w1)"
  shows "is_done w1 d \<and> has_pdf w1 d \<and> (\<forall>d'. d' \<noteq> d \<longrightarrow> fs w1 d' = fs w d')
         \<and> entries w1 = entries w"
proof -
  obtain fname doc others where p: "pdfs (fs w d) = (fname, doc) # others"
    using assms(1) by (cases "pdfs (fs w d)") (auto simp: has_pdf_def)
  have n: "analysis_json (fs w d) = None" using assms(2) by (simp add: is_done_def)
  let ?tx = "extract_text_from_pdf doc"
  let ?w0 = "w\<lparr>extractions := extractions w + 1\<rparr>"
  show ?thesis
  proof (cases "length ?tx < 100")
    case True
    then have "w1 = save_result d (too_short_record fname (length ?tx)) ?w0"
      using assms(3) p n by (simp add: process_one_def Let_def)
    then show ?thesis using p by (simp add: save_result_frame is_done_def has_pdf_def)
  next
    case False
    obtain res w2 where c: "call_llm ev ?tx fname ?w0 = (res, w2)"
      by (cases "call_llm ev ?tx fname ?w0")
    then obtain result where r: "res = Inr result" "w1 = save_result d result w2"
      using assms(3) p n False by (cases res) (auto simp: process_one_def Let_def)
    have f: "fs w2 = fs w" "entries w2 = entries w"
      using call_llm_frame(2,3)[of ev ?tx fname ?w0] c by simp_all
    show ?thesis using r f p by (simp add: save_result_frame is_done_def has_pdf_def)
  qed
qed

lemma sleep_frame: "fs (sleep t w) = fs w" "entries (sleep t w) = entries w"
  by (simp_all add: sleep_def)

lemma run_items_effect:
  assumes "distinct q" and "\<forall>d \<in> set q. has_pdf w d \<and> \<not> is_done w d"
    and "run_items ev q st w = (Inr st', w')"
  shows "(\<forall>d. has_pdf w' d = has_pdf w d) \<and> (\<forall>d. is_done w' d = (is_done w d \<or> d \<in> set q))
         \<and> entries w' = entries w"
  using assms
proof (induction q arbitrary: w st)
  case Nil
  then show ?case by simp
next
  case (Cons d ds)
  obtain res w1 where p: "process_one ev d w = (res, w1)" by (cases "process_one ev d w")
  then obtain rep where rep: "res = Inr rep" using Cons.prems(3) by (cases res) auto
  let ?w2 = "sleep RATE_LIMIT_DELAY w1"
  have run: "run_items ev ds (st(status rep := st (status rep) + 1)) ?w2 = (Inr st', w')"
    using Cons.prems(3) p rep by simp
  have e: "is_done w1 d \<and> has_pdf w1 d \<and> (\<forall>d'. d' \<noteq> d \<longrightarrow> fs w1 d' = fs w d')
         \<and> entries w1 = entries w"
    using process_one_pending[of w d ev rep w1] Cons.prems(2) p rep by simp
  have fs2: "fs ?w2 = fs w1" "entries ?w2 = entries w1" by (simp_all add: sleep_frame)
  have same: "\<And>d'. d' \<noteq> d \<Longrightarrow> has_pdf ?w2 d' = has_pdf w d' \<and> is_done ?w2 d' = is_done w d'"
    using e fs2 by (simp add: has_pdf_def is_done_def)
  have at_d: "has_pdf ?w2 d" "is_done ?w2 d" "has_pdf w d"
    using e fs2 Cons.prems(2) by (simp_all add: has_pdf_def is_done_def)
  have dd: "d \<notin> set ds" "distinct ds" using Cons.prems(1) by simp_all
  have pend: "\<forall>x \<in> set ds. has_pdf ?w2 x \<and> \<not> is_done ?w2 x"
  proof
    fix x assume x: "x \<in> set ds"
    then have "x \<noteq> d" using dd(1) by blast
    then have "has_pdf ?w2 x = has_pdf w x \<and> is_done ?w2 x = is_done w x" by (rule same)
    moreover have "has_pdf w x \<and> \<not> is_done w x" using Cons.prems(2) x by simp
    ultimately show "has_pdf ?w2 x \<and> \<not> is_done ?w2 x" by simp
  qed
  have ih: "(\<forall>x. has_pdf w' x = has_pdf ?w2 x) \<and> (\<forall>x. is_done w' x = (is_done ?w2 x \<or> x \<in> set ds))
         \<and> entries w' = entries ?w2"
    using Cons.IH[OF dd(2) pend run] .
  show ?case
  proof (intro conjI allI)
    fix x show "has_pdf w' x = has_pdf w x"
      using ih same[of x] at_d by (cases "x = d") auto
    show "is_done w' x = (is_done w x \<or> x \<in> set (d # ds))"
      using ih same[of x] at_d by (cases "x = d") auto
  next
    show "entries w' = entries w" using ih fs2 e by simp
  qed
qed

text \<open>Counting over a listing without repetitions.\<close>

lemma count_with_new:
  assumes "distinct fl" and "distinct q" and "set q \<subseteq> set fl" and "\<forall>d \<in> set q. \<not> p d"
  shows "length (filter (\<lambda>d. p d \<or> d \<in> set q) fl) = length (filter p fl) + length q"
proof -
  have "{x. p x \<or> x \<in> set q} \<inter> set fl = ({x. p x} \<inter> set fl) \<union> set q"
    using assms(3) by auto
  moreover have "({x. p x} \<inter> set fl) \<inter> set q = {}" using assms(4) by auto
  ultimately have "card ({x. p x \<or> x \<in> set q} \<inter> set fl)
                     = card ({x. p x} \<inter> set fl) + card (set q)"
    by (simp add: card_Un_disjoint)
  then show ?thesis
    using assms(1,2) by (simp add: distinct_length_filter distinct_card)
qed

lemma count_without:
  assumes "distinct fl" and "distinct q" and "set q \<subseteq> set fl" and "\<forall>d \<in> set q. p d"
  shows "length (filter (\<lambda>d. p d \<and> d \<notin> set q) fl) = length (filter p fl) - length q"
proof -
  have "{x. p x \<and> x \<notin> set q} \<inter> set fl = ({x. p x} \<inter> set fl) - set q" by auto
  moreover have "set q \<subseteq> {x. p x} \<inter> set fl" using assms(3,4) by auto
  ultimately have "card ({x. p x \<and> x \<notin> set q} \<inter> set fl)
                     = card ({x. p x} \<inter> set fl) - card (set q)"
    by (simp add: card_Diff_subset)
  then show ?thesis
    using assms(1,2) by (simp add: distinct_length_filter distinct_card)
qed

lemma count_split:
  "length (filter h fl) \<le> length (filter (\<lambda>d. h d \<and> \<not> a d) fl) + length (filter a fl)"
  by (induction fl) auto

lemma py_prefix_take:
  "py_prefix k xs = take (if 0 \<le> k then nat k else length xs - nat (- k)) xs"
  by (simp add: py_prefix_def)

lemma main_unlimited:
  assumes "api_key ev \<noteq> []" and "\<not> dry_run a" and "limit a \<le> 0"
  shows "main ev a w =
     (let fl = (if only_folder a \<noteq> [] then [only_folder a] else sort (entries w));
          t = int (length (filter (has_pdf w) fl)) - int (length (filter (is_done w) fl))
      in if t = 0 then (Inr All_analyzed, w)
         else (case run_items ev (py_prefix t (pending_folders w fl)) (\<lambda>s. 0) w of
                 (Inl e, w') \<Rightarrow> (Inl e, w')
               | (Inr stats, w') \<Rightarrow> (Inr (Finished stats), w')))"
  using assms by (simp add: main_def Let_def)

lemma second_run_idle:
  assumes lim: "limit a \<le> 0" and dist: "distinct (entries w)"
    and first: "main ev a w = (Inr r1, w1)"
  shows "snd (main ev a w1) = w1 \<and>
         (fst (main ev a w1) = Inr Missing_key \<or> fst (main ev a w1) = Inr Dry_run \<or>
          fst (main ev a w1) = Inr All_analyzed \<or> fst (main ev a w1) = Inr (Finished (\<lambda>s. 0)))"
proof (cases "api_key ev = [] \<or> dry_run a")
  case True
  then show ?thesis by (auto simp: main_def Let_def)
next
  case False
  then have key: "api_key ev \<noteq> []" and wet: "\<not> dry_run a" by simp_all
  define fl where "fl = (if only_folder a \<noteq> [] then [only_folder a] else sort (entries w))"
  define t where "t = int (length (filter (has_pdf w) fl)) - int (length (filter (is_done w) fl))"
  define pl where "pl = pending_folders w fl"
  define q where "q = py_prefix t pl"
  have dfl: "distinct fl" using dist by (simp add: fl_def)
  have m1: "main ev a w =
      (if t = 0 then (Inr All_analyzed, w)
       else (case run_items ev q (\<lambda>s. 0) w of
                 (Inl e, w') \<Rightarrow> (Inl e, w')
               | (Inr stats, w') \<Rightarrow> (Inr (Finished stats), w')))"
    unfolding main_unlimited[OF key wet lim] fl_def t_def pl_def q_def Let_def by simp
  show ?thesis
  proof (cases "t = 0")
    case True
    then have "w1 = w" using first m1 by simp
    moreover have "main ev a w = (Inr All_analyzed, w)" using True m1 by simp
    ultimately show ?thesis by simp
  next
    case False
    obtain res w' where run: "run_items ev q (\<lambda>s. 0) w = (res, w')"
      by (cases "run_items ev q (\<lambda>s. 0) w")
    then obtain st where st: "res = Inr st" "w1 = w'"
      using first m1 False by (cases res) auto
    have dpl: "distinct pl" using dfl by (simp add: pl_def pending_folders_def)
    have qtake: "q = take (if 0 \<le> t then nat t else length pl - nat (- t)) pl"
      by (simp add: q_def py_prefix_take)
    have dq: "distinct q" using dpl qtake by (metis distinct_take)
    have qsub: "set q \<subseteq> set pl" using qtake by (metis set_take_subset)
    have qpend: "\<forall>d \<in> set q. has_pdf w d \<and> \<not> is_done w d"
      using qsub by (auto simp: pl_def pending_folders_def)
    have qfl: "set q \<subseteq> set fl" using qsub by (auto simp: pl_def pending_folders_def)
    have eff: "(\<forall>d. has_pdf w1 d = has_pdf w d) \<and> (\<forall>d. is_done w1 d = (is_done w d \<or> d \<in> set q))
         \<and> entries w1 = entries w"
      using run_items_effect[OF dq qpend] run st by simp
    have fl1: "(if only_folder a \<noteq> [] then [only_folder a] else sort (entries w1)) = fl"
      using eff by (simp add: fl_def)
    have hw: "has_pdf w1 = has_pdf w" using eff by (intro ext) simp
    have dw: "is_done w1 = (\<lambda>d. is_done w d \<or> d \<in> set q)" using eff by (intro ext) simp
    have hp: "filter (has_pdf w1) fl = filter (has_pdf w) fl" by (simp only: hw)
    have dn: "length (filter (is_done w1) fl) = length (filter (is_done w) fl) + length q"
      unfolding dw using count_with_new[OF dfl dq qfl, of "is_done w"] qpend by simp
    have "pending_folders w1 fl = filter (\<lambda>d. (has_pdf w d \<and> \<not> is_done w d) \<and> d \<notin> set q) fl"
      unfolding pending_folders_def hw dw by (rule filter_cong) auto
    then have pn: "length (pending_folders w1 fl) = length pl - length q"
      using count_without[OF dfl dq qfl, of "\<lambda>d. has_pdf w d \<and> \<not> is_done w d"] qpend
      by (simp add: pl_def pending_folders_def)
    define t' where "t' = int (length (filter (has_pdf w1) fl)) - int (length (filter (is_done w1) fl))"
    have t': "t' = t - int (length q)" by (simp add: t'_def t_def hp dn)
    have m2: "main ev a w1 =
      (if t' = 0 then (Inr All_analyzed, w1)
       else (case run_items ev (py_prefix t' (pending_folders w1 fl)) (\<lambda>s. 0) w1 of
                 (Inl e, w') \<Rightarrow> (Inl e, w')
               | (Inr stats, w') \<Rightarrow> (Inr (Finished stats), w')))"
      unfolding main_unlimited[OF key wet lim] fl1 t'_def Let_def by simp
    have big: "int (length (filter (has_pdf w) fl)) \<le> int (length pl) + int (length (filter (is_done w) fl))"
      using count_split[of "has_pdf w" fl "is_done w"] by (simp add: pl_def pending_folders_def)
    show ?thesis
    proof (cases "0 < t")
      case True
      then have "nat t \<le> length pl" using big by (simp add: t_def)
      then have "length q = nat t" using qtake True by simp
      then have "t' = 0" using t' True by simp
      then show ?thesis using m2 by simp
    next
      case neg: False
      then have tneg: "t < 0" using False by simp
      then have lq: "length q = length pl - nat (- t)" using qtake by simp
      have t'neg: "t' < 0" using t' tneg by simp
      have "nat (- t') = nat (- t) + length q" using t' tneg by simp
      then have "length (pending_folders w1 fl) - nat (- t') = 0" using pn lq by arith
      then have "py_prefix t' (pending_folders w1 fl) = []"
        using t'neg by (simp add: py_prefix_def)
      then show ?thesis using m2 t'neg by simp
    qed
  qed
qed

text \<open>
  C2, as the code has it. For a folder whose result file exists, \<open>process_one\<close>
  reports \<open>skipped\<close> and leaves the world as it was: no extraction, no request, no
  sleep, no write. \<open>main\<close> never hands it such a folder: it keeps the folders with a
  PDF and without a result file, cut to the limit. So after a run without an item
  limit (\<open>--limit\<close> not positive) that returned, a second run with the same arguments
  over the corpus it left changes nothing: no request, extraction, sleep or write. It
  reports no item at all, skipped or otherwise: it stops at the key check, the dry
  run or "All papers already analyzed", or it loops over no folder and all its
  counters are zero. The directory listing names each folder once.
\<close>
theorem idempotent_rerun:
  "(analysis_json (fs w0 d) \<noteq> None \<longrightarrow>
      process_one ev d w0 =
        (Inr \<lparr>status = Skipped, folder = d, chars = None, filename = None\<rparr>, w0))
   \<and> (limit a \<le> 0 \<and> distinct (entries w) \<and> main ev a w = (Inr r1, w1) \<longrightarrow>
        snd (main ev a w1) = w1 \<and>
        (fst (main ev a w1) = Inr Missing_key \<or> fst (main ev a w1) = Inr Dry_run \<or>
         fst (main ev a w1) = Inr All_analyzed \<or> fst (main ev a w1) = Inr (Finished (\<lambda>s. 0))))"
  using process_one_skip second_run_idle by blast

lemma is_all_analyzed:
  "(case x of Inr All_analyzed \<Rightarrow> True | other \<Rightarrow> False) \<Longrightarrow> x = Inr All_analyzed"
  by (auto split: sum.splits run_result.splits)

lemma first_run_returns: "\<not> isl (fst (main (example_env service_ok) no_limit five_items))"
  by code_simp

lemma second_run_example:
  "fst (main (example_env service_ok) no_limit
          (snd (main (example_env service_ok) no_limit five_items))) = Inr All_analyzed"
  by (rule is_all_analyzed) code_simp

theorem idempotent_rerun_witness:
  "process_one (example_env service_ok) ''D1'' five_items =
     (Inr \<lparr>status = Skipped, folder = ''D1'', chars = None, filename = None\<rparr>, five_items)
   \<and> snd (main (example_env service_ok) no_limit
            (snd (main (example_env service_ok) no_limit five_items)))
       = snd (main (example_env service_ok) no_limit five_items)
   \<and> fst (main (example_env service_ok) no_limit
            (snd (main (example_env service_ok) no_limit five_items))) = Inr All_analyzed"
proof -
  let ?ev = "example_env service_ok"
  let ?w1 = "snd (main ?ev no_limit five_items)"
  let ?r1 = "projr (fst (main ?ev no_limit five_items))"
  have a: "analysis_json (fs five_items ''D1'') \<noteq> None"
    by (simp add: five_items_def corpus_def analysed_def)
  have b: "limit no_limit \<le> 0" by (simp add: no_limit_def)
  have c: "distinct (entries five_items)" by (simp add: five_items_def corpus_def)
  have "fst (main ?ev no_limit five_items) = Inr ?r1"
    using first_run_returns by simp
  then have d: "main ?ev no_limit five_items = (Inr ?r1, ?w1)"
    by (metis prod.collapse)
  note t = idempotent_rerun[where ?w0.0 = five_items and d = "''D1''" and ev = ?ev
      and a = no_limit and w = five_items and ?r1.0 = ?r1 and ?w1.0 = ?w1]
  show ?thesis using t a b c d second_run_example by blast
qed

lemma first_run_finished:
  "(case fst (main (example_env service_ok) no_limit five_items) of
      Inr (Finished st) \<Rightarrow> True | other \<Rightarrow> False)"
  by code_simp

lemma first_run_counters:
  "map (counters (projr (fst (main (example_env service_ok) no_limit five_items))))
        [Success, Skipped, No_pdf, Too_short, Error] = [1, 0, 0, 1, 0]"
  by code_simp

lemma limited_runs_calls:
  "calls (snd (main (example_env service_ok) (no_limit\<lparr>limit := 1\<rparr>) five_items)) = 0"
  "calls (snd (main (example_env service_ok) (no_limit\<lparr>limit := 1\<rparr>)
              (snd (main (example_env service_ok) (no_limit\<lparr>limit := 1\<rparr>) five_items)))) = 1"
  by code_simp+

theorem rerun_reports_nothing_counterexample:
  "fst (main (example_env service_ok) no_limit
          (snd (main (example_env service_ok) no_limit five_items))) = Inr All_analyzed
   \<and> map (counters (projr (fst (main (example_env service_ok) no_limit five_items))))
        [Success, Skipped, No_pdf, Too_short, Error] = [1, 0, 0, 1, 0]
   \<and> calls (snd (main (example_env service_ok) (no_limit\<lparr>limit := 1\<rparr>) five_items)) = 0
   \<and> calls (snd (main (example_env service_ok) (no_limit\<lparr>limit := 1\<rparr>)
              (snd (main (example_env service_ok) (no_limit\<lparr>limit := 1\<rparr>) five_items)))) = 1"
  using second_run_example first_run_counters limited_runs_calls by blast

end
